theory Spec2Isabelle
  imports Main "HOL-Library.AList" "HOL-Library.List_Lexorder" "HOL-Library.Char_ord"
begin

section \<open>Python strings\<close>

text \<open>
  The program is Python; its strings are modelled as HOL strings (lists of characters),
  restricted to ASCII, where \<open>str.lower\<close>, \<open>str.upper\<close> and \<open>str.strip\<close> act as below.
  Each function carries the name of the \<open>str\<close> method or operator it stands for.
\<close>

definition startswith :: "string \<Rightarrow> string \<Rightarrow> bool" where
  \<comment> \<open>\<open>s.startswith(p)\<close>\<close>
  "startswith s p = (take (length p) s = p)"

fun find_sub :: "string \<Rightarrow> string \<Rightarrow> nat option" where
  \<comment> \<open>\<open>s.find(sub)\<close>, with \<open>None\<close> for Python's \<open>-1\<close>\<close>
  "find_sub sub [] = (if sub = [] then Some 0 else None)"
| "find_sub sub (c # cs) =
     (if startswith (c # cs) sub then Some 0 else map_option Suc (find_sub sub cs))"

definition contains :: "string \<Rightarrow> string \<Rightarrow> bool" where
  \<comment> \<open>\<open>sub in s\<close>\<close>
  "contains sub s = (find_sub sub s \<noteq> None)"

lemma find_sub_bound: "find_sub sub s = Some i \<Longrightarrow> i + length sub \<le> length s"
proof (induction s arbitrary: i)
  case Nil
  then show ?case by (simp split: if_splits)
next
  case (Cons c cs)
  show ?case
  proof (cases "startswith (c # cs) sub")
    case True
    then have "length (take (length sub) (c # cs)) = length sub"
      by (simp only: startswith_def)
    then have "length sub \<le> length (c # cs)"
      by (simp add: min_def split: if_splits)
    with True Cons.prems show ?thesis by simp
  next
    case False
    with Cons.prems obtain j where "find_sub sub cs = Some j" "i = Suc j"
      by auto
    with Cons.IH show ?thesis by fastforce
  qed
qed

function py_split :: "string \<Rightarrow> string \<Rightarrow> string list" where
  \<comment> \<open>\<open>s.split(sep)\<close> for a non-empty separator (Python raises ValueError on an empty one;
      every separator in the program is a non-empty literal)\<close>
  "py_split sep s =
     (if sep = [] then [s]
      else case find_sub sep s of
             None \<Rightarrow> [s]
           | Some i \<Rightarrow> take i s # py_split sep (drop (i + length sep) s))"
  by pat_completeness auto
termination
proof (relation "measure (\<lambda>(sep, s). length s)")
  show "wf (measure (\<lambda>(sep, s). length s))" by simp
next
  fix sep s :: string and i :: nat
  assume "sep \<noteq> []" and "find_sub sep s = Some i"
  then have "i + length sep \<le> length s" and "0 < length sep"
    using find_sub_bound by auto
  then show "((sep, drop (i + length sep) s), (sep, s)) \<in> measure (\<lambda>(sep, s). length s)"
    by (cases sep) auto
qed

declare py_split.simps [simp del]

definition split1 :: "string \<Rightarrow> string \<Rightarrow> string list" where
  \<comment> \<open>\<open>s.split(sep, 1)\<close>\<close>
  "split1 sep s =
     (case find_sub sep s of
        None \<Rightarrow> [s]
      | Some i \<Rightarrow> [take i s, drop (i + length sep) s])"

function py_replace :: "string \<Rightarrow> string \<Rightarrow> string \<Rightarrow> string" where
  \<comment> \<open>\<open>s.replace(old, new)\<close> for a non-empty \<open>old\<close>: one left-to-right pass over
      non-overlapping occurrences\<close>
  "py_replace old new s =
     (if old = [] then s
      else case find_sub old s of
             None \<Rightarrow> s
           | Some i \<Rightarrow> take i s @ new @ py_replace old new (drop (i + length old) s))"
  by pat_completeness auto
termination
proof (relation "measure (\<lambda>(old, new, s). length s)")
  show "wf (measure (\<lambda>(old, new, s). length s))" by simp
next
  fix old new s :: string and i :: nat
  assume "old \<noteq> []" and "find_sub old s = Some i"
  then have "i + length old \<le> length s" and "0 < length old"
    using find_sub_bound by auto
  then show "((old, new, drop (i + length old) s), (old, new, s))
               \<in> measure (\<lambda>(old, new, s). length s)"
    by (cases old) auto
qed

declare py_replace.simps [simp del]

definition is_space :: "char \<Rightarrow> bool" where
  \<comment> \<open>the ASCII characters for which \<open>str.isspace\<close> holds: codes 9 to 13, 28 to 31, 32\<close>
  "is_space c = (of_char c \<in> set [9, 10, 11, 12, 13, 28, 29, 30, 31, 32 :: nat])"

definition lstrip_chars :: "string \<Rightarrow> string \<Rightarrow> string" where
  \<comment> \<open>\<open>s.lstrip(chars)\<close>\<close>
  "lstrip_chars chars s = dropWhile (\<lambda>c. c \<in> set chars) s"

definition rstrip_chars :: "string \<Rightarrow> string \<Rightarrow> string" where
  \<comment> \<open>\<open>s.rstrip(chars)\<close>\<close>
  "rstrip_chars chars s = rev (dropWhile (\<lambda>c. c \<in> set chars) (rev s))"

definition strip_chars :: "string \<Rightarrow> string \<Rightarrow> string" where
  \<comment> \<open>\<open>s.strip(chars)\<close>\<close>
  "strip_chars chars s = lstrip_chars chars (rstrip_chars chars s)"

definition strip :: "string \<Rightarrow> string" where
  \<comment> \<open>\<open>s.strip()\<close>\<close>
  "strip s = dropWhile is_space (rev (dropWhile is_space (rev s)))"

definition lower_char :: "char \<Rightarrow> char" where
  "lower_char c =
     (case map_of (zip ''ABCDEFGHIJKLMNOPQRSTUVWXYZ'' ''abcdefghijklmnopqrstuvwxyz'') c of
        Some d \<Rightarrow> d
      | None \<Rightarrow> c)"

definition upper_char :: "char \<Rightarrow> char" where
  "upper_char c =
     (case map_of (zip ''abcdefghijklmnopqrstuvwxyz'' ''ABCDEFGHIJKLMNOPQRSTUVWXYZ'') c of
        Some d \<Rightarrow> d
      | None \<Rightarrow> c)"

definition lower :: "string \<Rightarrow> string" where
  \<comment> \<open>\<open>s.lower()\<close>\<close>
  "lower s = map lower_char s"

definition upper :: "string \<Rightarrow> string" where
  \<comment> \<open>\<open>s.upper()\<close>\<close>
  "upper s = map upper_char s"

fun join :: "string \<Rightarrow> string list \<Rightarrow> string" where
  \<comment> \<open>\<open>sep.join(xs)\<close>\<close>
  "join sep [] = []"
| "join sep [x] = x"
| "join sep (x # y # ys) = x @ sep @ join sep (y # ys)"


section \<open>Errors, dictionaries and the accumulated record\<close>

text \<open>
  Every exception of the source is a value. \<open>FetchError\<close> and \<open>OracleError\<close> stand for
  whatever the page fetcher and the language model raise; the others are Python's own.
\<close>

datatype error =
    ValueError
  | IndexError
  | KeyError
  | AttributeError
  | FetchError string
  | OracleError string

definition nth_part :: "'a list \<Rightarrow> nat \<Rightarrow> error + 'a" where
  \<comment> \<open>\<open>xs[i]\<close> for \<open>i \<ge> 0\<close>: IndexError out of range\<close>
  "nth_part xs i = (if i < length xs then Inr (xs ! i) else Inl IndexError)"

text \<open>
  A Python \<open>dict\<close> of strings keeps its keys in insertion order: an association list
  with \<open>AList.update\<close> for \<open>d[k] = v\<close> (in place for a key that is there, at the end
  for a new one) and \<open>map_of\<close> for \<open>d.get(k)\<close>.
\<close>

type_synonym dict = "(string \<times> string) list"

definition dict_update :: "dict \<Rightarrow> dict \<Rightarrow> dict" where
  \<comment> \<open>\<open>d.update(other)\<close>\<close>
  "dict_update d other = fold (\<lambda>(k, v). AList.update k v) other d"

text \<open>
  \<open>found_info\<close> and \<open>temp_info\<close> are dicts from a section name to the section's data.
  The only keys the program ever uses are \<open>'Agency Level'\<close>, \<open>'Site Level'\<close>,
  \<open>'Services'\<close> and \<open>'Custom'\<close>; \<open>'Services'\<close> holds a list of dicts, the others a
  dict. The record below has one optional field per key, \<open>None\<close> for a key that is not
  in the dict.
\<close>

record info =
  agency_level :: "dict option"
  site_level :: "dict option"
  services_list :: "dict list option"
  custom :: "dict option"

definition empty_info :: info where
  "empty_info = \<lparr>agency_level = None, site_level = None, services_list = None, custom = None\<rparr>"

datatype section_key = Agency_Level | Site_Level | Services

definition sentinels :: "string list" where
  "sentinels = [''(missing)'', ''(not mentioned)'', ''not specified'', ''not available'']"

section \<open>Parsing the NEW_INFO slice: the first loop of \<open>_update_found_info\<close>\<close>

text \<open>
  The loop's variables: \<open>current_section\<close>, \<open>temp_info\<close> and \<open>current_service\<close>. The
  last is a reference to a dict that was appended to \<open>temp_info['Services']\<close> when it was
  created, so it is modelled as the index of that dict in the list.
\<close>

record parse_state =
  current_section :: "section_key option"
  temp_info :: info
  current_service :: "nat option"

definition init_parse_state :: parse_state where
  "init_parse_state = \<lparr>current_section = None, temp_info = empty_info, current_service = None\<rparr>"

definition section_header :: "string \<Rightarrow> section_key option" where
  \<comment> \<open>the first key of \<open>sections\<close> that occurs in the upper-cased line\<close>
  "section_header line =
     (let upper_line = upper line in
      if contains ''AGENCY LEVEL'' upper_line then Some Agency_Level
      else if contains ''SITE LEVEL'' upper_line then Some Site_Level
      else if contains ''SERVICE/PROGRAM'' upper_line then Some Services
      else None)"

fun init_section :: "section_key \<Rightarrow> info \<Rightarrow> info" where
  \<comment> \<open>\<open>if current_section not in temp_info: temp_info[current_section] = {} or []\<close>\<close>
  "init_section Agency_Level t =
     (case agency_level t of None \<Rightarrow> t\<lparr>agency_level := Some []\<rparr> | Some _ \<Rightarrow> t)"
| "init_section Site_Level t =
     (case site_level t of None \<Rightarrow> t\<lparr>site_level := Some []\<rparr> | Some _ \<Rightarrow> t)"
| "init_section Services t =
     (case services_list t of None \<Rightarrow> t\<lparr>services_list := Some []\<rparr> | Some _ \<Rightarrow> t)"

definition check_header :: "string \<Rightarrow> parse_state \<Rightarrow> parse_state" where
  "check_header line ps =
     (case section_header line of
        None \<Rightarrow> ps
      | Some sec \<Rightarrow> ps\<lparr>current_section := Some sec, temp_info := init_section sec (temp_info ps)\<rparr>)"

definition start_service :: "parse_state \<Rightarrow> error + parse_state" where
  \<comment> \<open>\<open>current_service = {}; temp_info['Services'].append(current_service)\<close>\<close>
  "start_service ps =
     (case services_list (temp_info ps) of
        None \<Rightarrow> Inl KeyError
      | Some svcs \<Rightarrow>
          Inr (ps\<lparr>current_service := Some (length svcs),
                  temp_info := (temp_info ps)\<lparr>services_list := Some (svcs @ [[]])\<rparr>\<rparr>))"

definition set_service_field :: "nat \<Rightarrow> string \<Rightarrow> string \<Rightarrow> parse_state \<Rightarrow> error + parse_state" where
  \<comment> \<open>\<open>current_service[key] = value\<close>, through the reference\<close>
  "set_service_field i key val ps =
     (case services_list (temp_info ps) of
        None \<Rightarrow> Inl KeyError
      | Some svcs \<Rightarrow>
          (case nth_part svcs i of
             Inl e \<Rightarrow> Inl e
           | Inr d \<Rightarrow>
               Inr (ps\<lparr>temp_info :=
                      (temp_info ps)\<lparr>services_list := Some (svcs[i := AList.update key val d])\<rparr>\<rparr>)))"

definition service_line :: "string \<Rightarrow> parse_state \<Rightarrow> error + parse_state" where
  \<comment> \<open>the branch \<open>if current_section == 'Services'\<close>\<close>
  "service_line line ps =
     (case (if startswith line ''- Name:'' then start_service ps else Inr ps) of
        Inl e \<Rightarrow> Inl e
      | Inr ps' \<Rightarrow>
          (case current_service ps' of
             None \<Rightarrow> Inr ps'
           | Some i \<Rightarrow>
               if startswith line ''- '' then
                 (case split1 '':'' (drop 2 line) of
                    [k, v] \<Rightarrow>
                      (let key = strip k; val = strip v in
                       if val \<noteq> [] \<and> lower val \<notin> set sentinels
                       then set_service_field i key val ps'
                       else Inr ps')
                  | _ \<Rightarrow> Inl ValueError)
               else Inr ps'))"

fun set_section_field :: "section_key \<Rightarrow> string \<Rightarrow> string \<Rightarrow> info \<Rightarrow> error + info" where
  \<comment> \<open>\<open>temp_info[current_section][key] = value\<close> for a section that holds a dict\<close>
  "set_section_field Agency_Level key val t =
     (case agency_level t of
        None \<Rightarrow> Inl KeyError
      | Some d \<Rightarrow> Inr (t\<lparr>agency_level := Some (AList.update key val d)\<rparr>))"
| "set_section_field Site_Level key val t =
     (case site_level t of
        None \<Rightarrow> Inl KeyError
      | Some d \<Rightarrow> Inr (t\<lparr>site_level := Some (AList.update key val d)\<rparr>))"
| "set_section_field Services key val t = Inl ValueError"

definition kept_value :: "string \<Rightarrow> string \<Rightarrow> error + string" where
  \<comment> \<open>what is stored for a key and a value that passed the filter\<close>
  "kept_value key val =
     (if contains ''hour'' (lower key) \<and> contains '':'' val then Inr val
      else if contains '':'' val then nth_part (py_split '':'' val) 0
      else Inr val)"

definition field_line :: "string \<Rightarrow> parse_state \<Rightarrow> error + parse_state" where
  \<comment> \<open>the branch \<open>elif ':' in line and not line.startswith('http')\<close>\<close>
  "field_line line ps =
     (case current_section ps of
        None \<Rightarrow> Inr ps
      | Some sec \<Rightarrow>
          (case split1 '':'' line of
             [k, v] \<Rightarrow>
               (let key = strip k; val = strip v in
                if \<not> startswith key ''Field'' \<and> val \<noteq> [] \<and> lower val \<notin> set sentinels
                then (case kept_value key val of
                        Inl e \<Rightarrow> Inl e
                      | Inr stored \<Rightarrow>
                          (case set_section_field sec key stored (temp_info ps) of
                             Inl e \<Rightarrow> Inl e
                           | Inr t \<Rightarrow> Inr (ps\<lparr>temp_info := t\<rparr>)))
                else Inr ps)
           | _ \<Rightarrow> Inl ValueError))"

definition parse_line :: "parse_state \<Rightarrow> string \<Rightarrow> error + parse_state" where
  \<comment> \<open>one iteration of \<open>for line in new_info.split('\n')\<close>\<close>
  "parse_line ps raw =
     (let line = strip raw in
      if line = [] then Inr ps
      else
        let ps1 = check_header line ps in
        if current_section ps1 = Some Services then service_line line ps1
        else if contains '':'' line \<and> \<not> startswith line ''http'' then field_line line ps1
        else Inr ps1)"

fun parse_lines :: "parse_state \<Rightarrow> string list \<Rightarrow> error + parse_state" where
  "parse_lines ps [] = Inr ps"
| "parse_lines ps (l # ls) =
     (case parse_line ps l of Inl e \<Rightarrow> Inl e | Inr ps' \<Rightarrow> parse_lines ps' ls)"

section \<open>Merging: the second loop of \<open>_update_found_info\<close>\<close>

fun merge_fields :: "dict \<Rightarrow> dict \<Rightarrow> dict" where
  \<comment> \<open>a section that holds a dict: a new key, or a strictly longer value, is stored\<close>
  "merge_fields [] found = found"
| "merge_fields ((key, val) # rest) found =
     merge_fields rest
       (case map_of found key of
          None \<Rightarrow> AList.update key val found
        | Some old \<Rightarrow> if length val > length old then AList.update key val found else found)"

fun merge_service :: "dict \<Rightarrow> dict list \<Rightarrow> dict list" where
  \<comment> \<open>the inner loop over \<open>existing_service\<close> with its \<open>break\<close>, then the append\<close>
  "merge_service new_service [] = [new_service]"
| "merge_service new_service (existing_service # rest) =
     (if map_of existing_service ''Name'' = map_of new_service ''Name''
      then dict_update existing_service new_service # rest
      else existing_service # merge_service new_service rest)"

definition merge_services :: "dict list \<Rightarrow> dict list \<Rightarrow> dict list" where
  \<comment> \<open>\<open>for new_service in data\<close>\<close>
  "merge_services data found = fold merge_service data found"

definition merge_temp_info :: "info \<Rightarrow> info \<Rightarrow> info" where
  \<comment> \<open>\<open>for section, data in temp_info.items()\<close>: the sections are independent of each other\<close>
  "merge_temp_info t found =
     found\<lparr>agency_level :=
             (case agency_level t of
                None \<Rightarrow> agency_level found
              | Some data \<Rightarrow> Some (merge_fields data (case agency_level found of None \<Rightarrow> [] | Some d \<Rightarrow> d))),
           site_level :=
             (case site_level t of
                None \<Rightarrow> site_level found
              | Some data \<Rightarrow> Some (merge_fields data (case site_level found of None \<Rightarrow> [] | Some d \<Rightarrow> d))),
           services_list :=
             (case services_list t of
                None \<Rightarrow> services_list found
              | Some data \<Rightarrow>
                  Some (merge_services data (case services_list found of None \<Rightarrow> [] | Some l \<Rightarrow> l)))\<rparr>"

definition update_found_info :: "string \<Rightarrow> info \<Rightarrow> error + info" where
  \<comment> \<open>\<open>_update_found_info(new_info)\<close>: an exception of the first loop leaves
      \<open>found_info\<close> as it was, since only the second loop writes to it\<close>
  "update_found_info new_info found =
     (case parse_lines init_parse_state (py_split ''\<newline>'' new_info) of
        Inl e \<Rightarrow> Inl e
      | Inr ps \<Rightarrow> Inr (merge_temp_info (temp_info ps) found))"


definition found_after :: "string \<Rightarrow> info \<Rightarrow> info" where
  \<comment> \<open>the value of \<open>self.found_info\<close> once the call \<open>_update_found_info(new_info)\<close> is
      over, whether it returned or raised\<close>
  "found_after new_info found =
     (case update_found_info new_info found of Inl e \<Rightarrow> found | Inr found' \<Rightarrow> found')"

section \<open>The collaborators and the state of a \<open>WebsiteAnalyzer\<close>\<close>

text \<open>
  \<open>urlparse\<close> and \<open>urljoin\<close> come from Python's \<open>urllib.parse\<close>, the page fetcher
  \<open>scrape_website\<close> does network requests and \<open>llm.invoke\<close> is the language model.
  They are the fields of an environment, each free to raise. \<open>set_iter\<close> is the
  order in which Python iterates over a \<open>set\<close> of strings (\<open>list(s)\<close>, \<open>for x in s\<close>,
  \<open>', '.join(s)\<close>): the language fixes no such order, and it is not the insertion order.

  Of the result of \<open>urlparse\<close> the program reads \<open>scheme\<close>, \<open>netloc\<close> and \<open>path\<close>.
  The prompt sent to the model is a fixed template filled with the values below, so the
  model is a function of these values.
\<close>

record parsed_url =
  scheme :: string
  netloc :: string
  path :: string

record scraped_data =
  content :: string
  meta_title :: string
  meta_url :: string
  internal_links :: "string list"

datatype prompt =
    Custom_Prompt string string string dict "string list"
      \<comment> \<open>custom query, url, content, \<open>found_info.get('Custom', {})\<close>, links\<close>
  | Default_Prompt string string info "string set" "string list"
      \<comment> \<open>url, content, \<open>found_info\<close>, \<open>missing_info\<close>, links\<close>

record env =
  urlparse :: "string \<Rightarrow> error + parsed_url"
  urljoin :: "string \<Rightarrow> string \<Rightarrow> error + string"
  scrape_website :: "string \<Rightarrow> error + scraped_data"
  llm_invoke :: "prompt \<Rightarrow> error + string"
  set_iter :: "string set \<Rightarrow> string list"

record crawl_state =
  visited_urls :: "string set"
  base_url :: "string option"
  found_info :: info
  missing_info :: "string set"
  failed_urls :: "string set"
  all_internal_links :: "string set"

definition init_state :: crawl_state where
  \<comment> \<open>\<open>WebsiteAnalyzer.__init__\<close>\<close>
  "init_state =
     \<lparr>visited_urls = {}, base_url = None, found_info = empty_info, missing_info = {},
      failed_urls = {}, all_internal_links = {}\<rparr>"

definition base_str :: "crawl_state \<Rightarrow> string" where
  \<comment> \<open>\<open>self.base_url\<close> as \<open>urlparse\<close> and \<open>urljoin\<close> read it: they take \<open>None\<close> for
      the empty string\<close>
  "base_str st = (case base_url st of None \<Rightarrow> [] | Some b \<Rightarrow> b)"

definition last_part :: "'a list \<Rightarrow> error + 'a" where
  \<comment> \<open>\<open>xs[-1]\<close>\<close>
  "last_part xs = (if xs = [] then Inl IndexError else Inr (last xs))"

section \<open>URL normaliser\<close>

definition clean_url :: "string \<Rightarrow> string" where
  \<comment> \<open>\<open>_clean_url\<close>; the characters stripped are the single and the double quote\<close>
  "clean_url url0 =
     (let url = strip_chars [CHR 0x27, CHR 0x22] url0 in
      if contains ''://'' url then
        (case split1 ''://'' url of
           [protocol, rest] \<Rightarrow> protocol @ ''://'' @ py_replace ''//'' ''/'' rest
         | _ \<Rightarrow> url)
      else url)"

definition normalize_url :: "env \<Rightarrow> string \<Rightarrow> error + string" where
  \<comment> \<open>\<open>_normalize_url\<close>\<close>
  "normalize_url E url =
     (case urlparse E (clean_url url) of
        Inl e \<Rightarrow> Inl e
      | Inr parsed \<Rightarrow>
          Inr (lower (rstrip_chars ''/'' (scheme parsed @ ''://'' @ netloc parsed @ path parsed))))"

section \<open>Link resolver\<close>

definition post_scheme :: "env \<Rightarrow> string \<Rightarrow> error + string" where
  \<comment> \<open>\<open>self._normalize_url(u).rstrip('/').split('://')[-1]\<close>\<close>
  "post_scheme E u =
     (case normalize_url E u of
        Inl e \<Rightarrow> Inl e
      | Inr n \<Rightarrow> last_part (py_split ''://'' (rstrip_chars ''/'' n)))"

fun match_possible :: "env \<Rightarrow> string \<Rightarrow> string list \<Rightarrow> error + bool" where
  \<comment> \<open>the inner loop \<open>for possible_url in possible_urls\<close> for one available link:
      whether some candidate matches it\<close>
  "match_possible E available_link [] = Inr False"
| "match_possible E available_link (possible_url # rest) =
     (case post_scheme E possible_url of
        Inl e \<Rightarrow> Inl e
      | Inr clean_possible \<Rightarrow>
          (case post_scheme E available_link of
             Inl e \<Rightarrow> Inl e
           | Inr clean_available \<Rightarrow>
               if contains clean_possible clean_available \<or> contains clean_available clean_possible
               then Inr True
               else match_possible E available_link rest))"

fun match_available :: "env \<Rightarrow> string list \<Rightarrow> string list \<Rightarrow> error + string option" where
  \<comment> \<open>the outer loop \<open>for available_link in available_links\<close>\<close>
  "match_available E possible_urls [] = Inr None"
| "match_available E possible_urls (available_link # rest) =
     (case match_possible E available_link possible_urls of
        Inl e \<Rightarrow> Inl e
      | Inr True \<Rightarrow> Inr (Some available_link)
      | Inr False \<Rightarrow> match_available E possible_urls rest)"

fun same_domain :: "env \<Rightarrow> string \<Rightarrow> string list \<Rightarrow> error + string option" where
  \<comment> \<open>the last loop: the first candidate on the host of the base URL\<close>
  "same_domain E base [] = Inr None"
| "same_domain E base (possible_url # rest) =
     (case urlparse E possible_url of
        Inl e \<Rightarrow> Inl e
      | Inr parsed_url \<Rightarrow>
          (case urlparse E base of
             Inl e \<Rightarrow> Inl e
           | Inr parsed_base \<Rightarrow>
               if netloc parsed_url = netloc parsed_base then Inr (Some possible_url)
               else same_domain E base rest))"

fun urljoin_all :: "env \<Rightarrow> string \<Rightarrow> string list \<Rightarrow> error + string list" where
  \<comment> \<open>\<open>[urljoin(self.base_url, path) for path in paths]\<close>\<close>
  "urljoin_all E base [] = Inr []"
| "urljoin_all E base (p # ps) =
     (case urljoin E base p of
        Inl e \<Rightarrow> Inl e
      | Inr u \<Rightarrow> (case urljoin_all E base ps of Inl e \<Rightarrow> Inl e | Inr us \<Rightarrow> Inr (u # us)))"

definition current_context :: "string \<Rightarrow> error + string" where
  \<comment> \<open>\<open>current_path.split('/')[1] if current_path and len(current_path.split('/')) > 1 else ''\<close>\<close>
  "current_context current_path =
     (if current_path \<noteq> [] \<and> length (py_split ''/'' current_path) > 1
      then nth_part (py_split ''/'' current_path) 1
      else Inr [])"

definition possible_urls_of :: "env \<Rightarrow> crawl_state \<Rightarrow> string \<Rightarrow> error + string list" where
  \<comment> \<open>the candidates for a cleaned URL\<close>
  "possible_urls_of E st url =
     (if \<not> (startswith url ''http://'' \<or> startswith url ''https://'') then
        (case urlparse E (base_str st) of
           Inl e \<Rightarrow> Inl e
         | Inr parsed_base \<Rightarrow>
             (case last_part (set_iter E (visited_urls st)) of
                Inl e \<Rightarrow> Inl e
              | Inr recent \<Rightarrow>
                  (case urlparse E recent of
                     Inl e \<Rightarrow> Inl e
                   | Inr parsed_recent \<Rightarrow>
                       (case current_context (path parsed_recent) of
                          Inl e \<Rightarrow> Inl e
                        | Inr ctx \<Rightarrow>
                            urljoin_all E (base_str st)
                              [lstrip_chars ''/'' url,
                               ctx @ ''/'' @ lstrip_chars ''/'' url,
                               ''bloomington/'' @ lstrip_chars ''/'' url]))))
      else Inr [url])"

definition normalize_and_validate_url ::
  "env \<Rightarrow> crawl_state \<Rightarrow> string \<Rightarrow> string list \<Rightarrow> error + string option" where
  \<comment> \<open>\<open>_normalize_and_validate_url\<close>\<close>
  "normalize_and_validate_url E st url0 available_links =
     (let url = clean_url url0 in
      case possible_urls_of E st url of
        Inl e \<Rightarrow> Inl e
      | Inr possible_urls \<Rightarrow>
          (case match_available E possible_urls available_links of
             Inl e \<Rightarrow> Inl e
           | Inr (Some link) \<Rightarrow> Inr (Some link)
           | Inr None \<Rightarrow> same_domain E (base_str st) possible_urls))"

definition next_url_value :: "string \<Rightarrow> error + string" where
  \<comment> \<open>the first two statements of \<open>_extract_next_urls\<close>: the value on the marker's line\<close>
  "next_url_value analysis =
     (case nth_part (py_split ''NEXT_URL:'' analysis) 1 of
        Inl e \<Rightarrow> Inl e
      | Inr after \<Rightarrow>
          (case nth_part (py_split ''\<newline>'' (strip after)) 0 of
             Inl e \<Rightarrow> Inl e
           | Inr first_line \<Rightarrow>
               (case nth_part (py_split ''('' first_line) 0 of
                  Inl e \<Rightarrow> Inl e
                | Inr v \<Rightarrow> Inr (strip v))))"

definition try_extract_next_urls ::
  "env \<Rightarrow> crawl_state \<Rightarrow> string \<Rightarrow> string list \<Rightarrow> error + string list" where
  \<comment> \<open>the body of the \<open>try\<close> of \<open>_extract_next_urls\<close>\<close>
  "try_extract_next_urls E st analysis available_links =
     (case next_url_value analysis of
        Inl e \<Rightarrow> Inl e
      | Inr next_url \<Rightarrow>
          if lower next_url = ''none'' then Inr []
          else
            (case (if startswith next_url ''/'' then urljoin E (base_str st) next_url
                   else Inr next_url) of
               Inl e \<Rightarrow> Inl e
             | Inr joined \<Rightarrow>
                 (case normalize_and_validate_url E st joined available_links of
                    Inl e \<Rightarrow> Inl e
                  | Inr None \<Rightarrow> Inr []
                  | Inr (Some full_url) \<Rightarrow> Inr (if full_url \<noteq> [] then [full_url] else []))))"

definition extract_next_urls :: "env \<Rightarrow> crawl_state \<Rightarrow> string \<Rightarrow> string list \<Rightarrow> string list" where
  \<comment> \<open>\<open>_extract_next_urls\<close>: \<open>except Exception\<close> returns the empty list\<close>
  "extract_next_urls E st analysis available_links =
     (case try_extract_next_urls E st analysis available_links of
        Inl e \<Rightarrow> []
      | Inr urls \<Rightarrow> urls)"


section \<open>Report formatter\<close>

function show_nat :: "nat \<Rightarrow> string" where
  \<comment> \<open>the decimal numeral an f-string prints for a non-negative integer\<close>
  "show_nat n =
     (if n < 10 then [char_of (48 + n)]
      else show_nat (n div 10) @ [char_of (48 + n mod 10)])"
  by pat_completeness auto
termination
  by (relation "measure (\<lambda>n. n)") auto

declare show_nat.simps [simp del]

definition canonical_fields :: "string list" where
  "canonical_fields =
     [''Name'', ''AKA Names'', ''Phone Numbers'', ''Description'',
      ''Days/Hours of Operation'', ''Eligibility'', ''Geographic Area Served'',
      ''Documents Required'', ''Application/Intake Process'',
      ''Fees/Payment Options'', ''Taxonomy Terms (Services/Targets)'']"

definition field_text :: "string \<times> string \<Rightarrow> string" where
  \<comment> \<open>\<open>f"{key}: {value}"\<close>\<close>
  "field_text kv = fst kv @ '': '' @ snd kv"

definition section_lines :: "string \<Rightarrow> dict option \<Rightarrow> string list" where
  \<comment> \<open>one round of \<open>for section in ['Agency Level', 'Site Level']\<close>\<close>
  "section_lines name sec =
     (case sec of
        None \<Rightarrow> []
      | Some d \<Rightarrow> [''=== '' @ name @ '' ===\<newline>''] @ map field_text d @ [[]])"

definition service_lines :: "nat \<times> dict \<Rightarrow> string list" where
  "service_lines p =
     [''Service '' @ show_nat (fst p) @ '':'']
     @ concat (map (\<lambda>key. case map_of (snd p) key of
                             None \<Rightarrow> []
                           | Some v \<Rightarrow> [''  '' @ key @ '': '' @ v])
                   canonical_fields)
     @ [[]]"

definition services_lines :: "dict list option \<Rightarrow> string list" where
  \<comment> \<open>\<open>if 'Services' in self.found_info and self.found_info['Services']\<close>, with
      \<open>enumerate(..., 1)\<close>\<close>
  "services_lines sec =
     (case sec of
        None \<Rightarrow> []
      | Some l \<Rightarrow>
          if l = [] then []
          else [''=== Services/Programs ===\<newline>'']
               @ concat (map service_lines (zip [1 ..< Suc (length l)] l)))"

definition missing_lines :: "env \<Rightarrow> crawl_state \<Rightarrow> string list" where
  "missing_lines E st =
     (let missing_items =
            map strip (filter (\<lambda>item. \<not> contains '':'' item) (set_iter E (missing_info st)))
      in [''=== MISSING INFORMATION ==='',
          if missing_items \<noteq> [] then join '', '' missing_items
          else ''All mandatory information found'',
          []])"

definition source_lines :: "env \<Rightarrow> crawl_state \<Rightarrow> string list" where
  "source_lines E st = [''=== SOURCE URLS ==='', join '', '' (set_iter E (visited_urls st))]"

definition format_final_lines :: "env \<Rightarrow> crawl_state \<Rightarrow> string list" where
  \<comment> \<open>the list \<open>output\<close> of \<open>_format_final_results\<close>\<close>
  "format_final_lines E st =
     [''Complete Service Provider Profile:\<newline>'']
     @ section_lines ''Agency Level'' (agency_level (found_info st))
     @ section_lines ''Site Level'' (site_level (found_info st))
     @ services_lines (services_list (found_info st))
     @ missing_lines E st
     @ source_lines E st"

definition format_final_results :: "env \<Rightarrow> crawl_state \<Rightarrow> string" where
  "format_final_results E st = join ''\<newline>'' (format_final_lines E st)"

definition format_custom_lines :: "env \<Rightarrow> string \<Rightarrow> crawl_state \<Rightarrow> string list" where
  \<comment> \<open>the list \<open>output\<close> of \<open>_format_custom_results\<close>\<close>
  "format_custom_lines E custom_query st =
     [''Query Results for: '' @ custom_query @ ''\<newline>'']
     @ (case custom (found_info st) of
          None \<Rightarrow> []
        | Some d \<Rightarrow> [''=== EXTRACTED INFORMATION ===\<newline>''] @ map field_text d @ [[]])
     @ source_lines E st"

definition format_custom_results :: "env \<Rightarrow> string \<Rightarrow> crawl_state \<Rightarrow> string" where
  "format_custom_results E custom_query st = join ''\<newline>'' (format_custom_lines E custom_query st)"

section \<open>Crawl controller\<close>

definition truthy :: "string option \<Rightarrow> bool" where
  \<comment> \<open>\<open>if custom_extraction\<close>, \<open>if self.base_url\<close>: neither \<open>None\<close> nor the empty string\<close>
  "truthy x = (x \<noteq> None \<and> x \<noteq> Some [])"

definition slice_between :: "string \<Rightarrow> string \<Rightarrow> string \<Rightarrow> error + string" where
  \<comment> \<open>\<open>analysis.split(start)[1].split(stop)[0].strip()\<close>\<close>
  "slice_between start stop analysis =
     (case nth_part (py_split start analysis) 1 of
        Inl e \<Rightarrow> Inl e
      | Inr after \<Rightarrow>
          (case nth_part (py_split stop after) 0 of
             Inl e \<Rightarrow> Inl e
           | Inr part \<Rightarrow> Inr (strip part)))"

definition parse_custom_info :: "string \<Rightarrow> error + dict" where
  \<comment> \<open>\<open>self._parse_custom_info(extracted)\<close>: the class \<open>WebsiteAnalyzer\<close> defines no
      attribute of that name (and has no base class), so the attribute lookup raises
      AttributeError before anything is called\<close>
  "parse_custom_info extracted = Inl AttributeError"

definition merge_custom :: "env \<Rightarrow> string \<Rightarrow> crawl_state \<Rightarrow> error option \<times> crawl_state" where
  \<comment> \<open>the custom branch of \<open>_analyze_content\<close> after the model has answered; the state
      returned with an error is the state at the raise. In the last statement Python
      evaluates \<open>self.found_info['Custom'].update\<close> first and the argument next, so the
      section exists when the argument raises\<close>
  "merge_custom E analysis st =
     (if contains ''EXTRACTED_INFO:'' analysis then
        (case slice_between ''EXTRACTED_INFO:'' ''NEXT_URL:'' analysis of
           Inl e \<Rightarrow> (Some e, st)
         | Inr extracted \<Rightarrow>
             (let existing = (case custom (found_info st) of None \<Rightarrow> [] | Some d \<Rightarrow> d);
                  st1 = st\<lparr>found_info := (found_info st)\<lparr>custom := Some existing\<rparr>\<rparr>
              in case parse_custom_info extracted of
                   Inl e \<Rightarrow> (Some e, st1)
                 | Inr pairs \<Rightarrow>
                     (None,
                      st\<lparr>found_info :=
                            (found_info st)\<lparr>custom := Some (dict_update existing pairs)\<rparr>\<rparr>)))
      else (None, st))"

definition merge_default :: "string \<Rightarrow> crawl_state \<Rightarrow> error option \<times> crawl_state" where
  \<comment> \<open>the default branch of \<open>_analyze_content\<close> after the model has answered\<close>
  "merge_default analysis st =
     (case (if contains ''NEW_INFO:'' analysis then
              (case slice_between ''NEW_INFO:'' ''STILL_MISSING:'' analysis of
                 Inl e \<Rightarrow> Inl e
               | Inr new_info \<Rightarrow>
                   (case update_found_info new_info (found_info st) of
                      Inl e \<Rightarrow> Inl e
                    | Inr found \<Rightarrow> Inr (st\<lparr>found_info := found\<rparr>)))
            else Inr st) of
        Inl e \<Rightarrow> (Some e, st)
      | Inr st1 \<Rightarrow>
          if contains ''STILL_MISSING:'' analysis then
            (case slice_between ''STILL_MISSING:'' ''NEXT_URL:'' analysis of
               Inl e \<Rightarrow> (Some e, st1)
             | Inr missing \<Rightarrow>
                 (None,
                  st1\<lparr>missing_info :=
                        set (filter (\<lambda>item. item \<noteq> []) (map strip (py_split ''\<newline>'' missing)))\<rparr>))
          else (None, st1))"

definition analyze_content ::
  "env \<Rightarrow> scraped_data \<Rightarrow> string option \<Rightarrow> crawl_state \<Rightarrow> (error + string) \<times> crawl_state" where
  \<comment> \<open>\<open>_analyze_content\<close>\<close>
  "analyze_content E scraped custom_extraction st =
     (let analysis_prompt =
            (if truthy custom_extraction
             then Custom_Prompt (the custom_extraction) (meta_url scraped) (content scraped)
                    (case custom (found_info st) of None \<Rightarrow> [] | Some d \<Rightarrow> d)
                    (internal_links scraped)
             else Default_Prompt (meta_url scraped) (content scraped) (found_info st)
                    (missing_info st) (internal_links scraped))
      in case llm_invoke E analysis_prompt of
           Inl e \<Rightarrow> (Inl e, st)
         | Inr analysis \<Rightarrow>
             (case (if truthy custom_extraction then merge_custom E analysis st
                    else merge_default analysis st) of
                (Some e, st') \<Rightarrow> (Inl e, st')
              | (None, st') \<Rightarrow> (Inr analysis, st')))"

datatype metadata =
    Skipped string
      \<comment> \<open>\<open>{'url': url, 'status': 'skipped'}\<close>\<close>
  | Failed string error
      \<comment> \<open>\<open>{'url': url, 'error': str(e)}\<close>\<close>
  | Page string string "string list"
      \<comment> \<open>\<open>scraped_data['metadata']\<close>: title, url, internal links\<close>

record result =
  analysis :: string
  metadata :: metadata

definition failed_result :: "env \<Rightarrow> string \<Rightarrow> error \<Rightarrow> crawl_state \<Rightarrow> result \<times> crawl_state" where
  \<comment> \<open>the \<open>except Exception\<close> clause of \<open>analyze_website\<close>, from the state at the raise\<close>
  "failed_result E url e st =
     (let st' = st\<lparr>failed_urls := insert url (failed_urls st)\<rparr>
      in (\<lparr>analysis = format_final_results E st', metadata = Failed url e\<rparr>, st'))"

definition set_base_url :: "env \<Rightarrow> string \<Rightarrow> crawl_state \<Rightarrow> error + crawl_state" where
  \<comment> \<open>\<open>if not self.base_url: ...\<close>\<close>
  "set_base_url E url st =
     (if \<not> truthy (base_url st) then
        (case urlparse E url of
           Inl e \<Rightarrow> Inl e
         | Inr parsed \<Rightarrow> Inr (st\<lparr>base_url := Some (scheme parsed @ ''://'' @ netloc parsed)\<rparr>))
      else Inr st)"

function analyze_website ::
  "env \<Rightarrow> string \<Rightarrow> string option \<Rightarrow> int \<Rightarrow> crawl_state \<Rightarrow> result \<times> crawl_state" where
  \<comment> \<open>\<open>analyze_website(url, custom_extraction, depth)\<close>; the calls that only draw on the
      screen (\<open>st.expander\<close>, \<open>st.text\<close>) are left out\<close>
  "analyze_website E url custom_extraction depth st =
     (if depth \<le> 0 \<or> url \<in> visited_urls st \<or> url \<in> failed_urls st then
        (\<lparr>analysis = format_final_results E st, metadata = Skipped url\<rparr>, st)
      else
        let st1 = st\<lparr>visited_urls := insert url (visited_urls st)\<rparr> in
        case set_base_url E url st1 of
          Inl e \<Rightarrow> failed_result E url e st1
        | Inr st2 \<Rightarrow>
            (case scrape_website E url of
               Inl e \<Rightarrow> failed_result E url e st2
             | Inr scraped0 \<Rightarrow>
                 (let st3 = st2\<lparr>all_internal_links :=
                                  all_internal_links st2 \<union> set (internal_links scraped0)\<rparr>;
                      links = set_iter E (all_internal_links st3);
                      scraped = scraped0\<lparr>internal_links := links\<rparr>
                  in case analyze_content E scraped custom_extraction st3 of
                       (Inl e, st4) \<Rightarrow> failed_result E url e st4
                     | (Inr analysis_text, st4) \<Rightarrow>
                         (let st5 =
                                (if contains ''NEXT_URL:'' analysis_text then
                                   fold (\<lambda>next_url s.
                                           if next_url \<notin> visited_urls s \<and> next_url \<notin> failed_urls s
                                           then snd (analyze_website E next_url custom_extraction
                                                       (depth - 1) s)
                                           else s)
                                        (extract_next_urls E st4 analysis_text links) st4
                                 else st4)
                          in (\<lparr>analysis =
                                  (if truthy custom_extraction
                                   then format_custom_results E (the custom_extraction) st5
                                   else format_final_results E st5),
                                metadata = Page (meta_title scraped) (meta_url scraped) links\<rparr>,
                              st5)))))"
  by pat_completeness auto
termination
  by (relation "measure (\<lambda>(E, url, custom_extraction, depth, st). nat depth)") auto

declare analyze_website.simps [simp del]


section \<open>Concrete collaborators, for running the model on examples\<close>

text \<open>
  \<open>py_urlparse\<close> follows \<open>urllib.parse.urlparse\<close> on URLs made of printable ASCII
  characters without \<open>;\<close>, \<open>[\<close> or \<open>]\<close>: a scheme is a letter followed by letters,
  digits, \<open>+\<close>, \<open>-\<close> or \<open>.\<close> up to the first colon and is lower-cased; a network location
  follows \<open>//\<close> and ends at the first \<open>/\<close>, \<open>?\<close> or \<open>#\<close>; the path ends at the first
  \<open>#\<close> or \<open>?\<close>.

  \<open>py_urljoin\<close> follows \<open>urllib.parse.urljoin\<close> for the calls the program makes on
  well-formed input: a base of the form \<open>scheme://host\<close> with scheme http or https, and a
  reference that is empty or a path (no scheme, no \<open>//\<close>, no \<open>.\<close> or \<open>..\<close> segment,
  no \<open>?\<close>, \<open>#\<close> or \<open>;\<close>).
\<close>

definition is_alpha :: "char \<Rightarrow> bool" where
  "is_alpha c = (c \<in> set ''abcdefghijklmnopqrstuvwxyzABCDEFGHIJKLMNOPQRSTUVWXYZ'')"

definition scheme_chars :: string where
  "scheme_chars = ''abcdefghijklmnopqrstuvwxyzABCDEFGHIJKLMNOPQRSTUVWXYZ0123456789+-.''"

definition split_scheme :: "string \<Rightarrow> string \<times> string" where
  "split_scheme url =
     (case find_sub '':'' url of
        None \<Rightarrow> ([], url)
      | Some i \<Rightarrow>
          if 0 < i \<and> (case url of [] \<Rightarrow> False | c # _ \<Rightarrow> is_alpha c)
             \<and> list_all (\<lambda>c. c \<in> set scheme_chars) (take i url)
          then (lower (take i url), drop (Suc i) url)
          else ([], url))"

definition split_netloc :: "string \<Rightarrow> string \<times> string" where
  "split_netloc url =
     (if take 2 url = ''//''
      then (takeWhile (\<lambda>c. c \<notin> set ''/?#'') (drop 2 url),
            dropWhile (\<lambda>c. c \<notin> set ''/?#'') (drop 2 url))
      else ([], url))"

definition py_urlparse :: "string \<Rightarrow> parsed_url" where
  "py_urlparse url =
     (let (sch, rest) = split_scheme url;
          (loc, rest') = split_netloc rest
      in \<lparr>scheme = sch, netloc = loc, path = takeWhile (\<lambda>c. c \<notin> set ''?#'') rest'\<rparr>)"

definition py_urljoin :: "string \<Rightarrow> string \<Rightarrow> string" where
  "py_urljoin base url =
     (if base = [] then url
      else if url = [] then base
      else if startswith url ''/'' then base @ url
      else base @ ''/'' @ url)"

definition py_env ::
  "(string \<Rightarrow> error + scraped_data) \<Rightarrow> (prompt \<Rightarrow> error + string) \<Rightarrow> (string set \<Rightarrow> string list) \<Rightarrow> env" where
  \<comment> \<open>an environment from a fetcher, a language model and an iteration order\<close>
  "py_env fetch llm iter =
     \<lparr>urlparse = (\<lambda>u. Inr (py_urlparse u)),
      urljoin = (\<lambda>b u. Inr (py_urljoin b u)),
      scrape_website = fetch,
      llm_invoke = llm,
      set_iter = iter\<rparr>"

definition offline_env :: env where
  \<comment> \<open>an environment with no network and no model, whose sets iterate in sorted order\<close>
  "offline_env =
     py_env (\<lambda>u. Inl (FetchError ''offline'')) (\<lambda>p. Inl (OracleError ''offline''))
       sorted_list_of_set"

definition home_visited :: crawl_state where
  \<comment> \<open>the state after a first visit of the home page that stored nothing\<close>
  "home_visited =
     init_state\<lparr>visited_urls := {''http://example.com''}, base_url := Some ''http://example.com''\<rparr>"

section \<open>Predicates used in the statements\<close>



definition wf_dicts :: "dict list \<Rightarrow> bool" where
  \<comment> \<open>every element is a dict: no key occurs twice\<close>
  "wf_dicts l = list_all (\<lambda>d. distinct (map fst d)) l"

definition wf_info :: "info \<Rightarrow> bool" where
  \<comment> \<open>the sections a parse fills hold dicts\<close>
  "wf_info t =
     ((case agency_level t of None \<Rightarrow> True | Some d \<Rightarrow> distinct (map fst d))
      \<and> (case site_level t of None \<Rightarrow> True | Some d \<Rightarrow> distinct (map fst d))
      \<and> (case services_list t of None \<Rightarrow> True | Some l \<Rightarrow> wf_dicts l))"

definition update_all :: "dict list \<Rightarrow> dict \<Rightarrow> dict" where
  \<comment> \<open>\<open>for n in ds: e.update(n)\<close>\<close>
  "update_all ds e = fold (\<lambda>n e. dict_update e n) ds e"

section \<open>An example site of two pages\<close>

text \<open>
  A home page that links to an about page, and three situations: the about page cannot
  be fetched; the crawl starts at the about page, which sends it to the home page; a custom
  query on the home page, whose answer holds one pair.
\<close>

definition home_page :: scraped_data where
  "home_page = \<lparr>content = ''Example Aid helps.'', meta_title = ''Home'',
                meta_url = ''http://example.com'', internal_links = [''http://example.com/about'']\<rparr>"

definition about_page :: scraped_data where
  "about_page = \<lparr>content = ''About us.'', meta_title = ''About'',
                meta_url = ''http://example.com/about'', internal_links = [''http://example.com'']\<rparr>"

definition prompt_url :: "prompt \<Rightarrow> string" where
  \<comment> \<open>the page a prompt is about\<close>
  "prompt_url p = (case p of Custom_Prompt q u c f l \<Rightarrow> u | Default_Prompt u c f m l \<Rightarrow> u)"

definition home_llm :: "prompt \<Rightarrow> error + string" where
  "home_llm p =
     (if prompt_url p = ''http://example.com''
      then Inr ''NEW_INFO:\<newline>Agency Level:\<newline>Agency Name: Example Aid\<newline>Service/Program Level:\<newline>- Name: Food Bank\<newline>- Languages: Spanish\<newline>STILL_MISSING:\<newline>Phone Numbers\<newline>NEXT_URL: /about''
      else Inr ''NEW_INFO:\<newline>STILL_MISSING:\<newline>NEXT_URL: none'')"

definition broken_about_env :: env where
  "broken_about_env =
     py_env (\<lambda>u. if u = ''http://example.com'' then Inr home_page else Inl (FetchError ''503''))
       home_llm sorted_list_of_set"

definition about_first_llm :: "prompt \<Rightarrow> error + string" where
  "about_first_llm p =
     (if prompt_url p = ''http://example.com/about''
      then Inr ''NEW_INFO:\<newline>STILL_MISSING:\<newline>NEXT_URL: http://example.com''
      else Inr ''NEW_INFO:\<newline>STILL_MISSING:\<newline>NEXT_URL: none'')"

definition about_first_env :: env where
  "about_first_env =
     py_env (\<lambda>u. if u = ''http://example.com'' then Inr home_page
                   else if u = ''http://example.com/about'' then Inr about_page
                   else Inl (FetchError ''404''))
       about_first_llm sorted_list_of_set"

definition custom_env :: env where
  "custom_env =
     py_env (\<lambda>u. if u = ''http://example.com'' then Inr home_page else Inl (FetchError ''404''))
       (\<lambda>p. Inr ''EXTRACTED_INFO:\<newline>Phone: 555\<newline>NEXT_URL: none'')
       sorted_list_of_set"

section \<open>Dictionaries: facts about \<open>dict_update\<close>\<close>

lemma map_of_fold_update:
  "map_of (fold (\<lambda>(k, v). AList.update k v) ws d) = map_of d ++ map_of (rev ws)"
proof (induction ws arbitrary: d)
  case Nil
  show ?case by simp
next
  case (Cons w ws)
  obtain k v where w: "w = (k, v)" by (cases w)
  have "map_of (fold (\<lambda>(k, v). AList.update k v) (w # ws) d)
          = map_of (AList.update k v d) ++ map_of (rev ws)"
    using Cons.IH [of "AList.update k v d"] by (simp add: w)
  also have "\<dots> = map_of d ++ map_of (rev (w # ws))"
    by (rule ext) (simp add: w update_conv' map_of_append map_add_def split: option.splits)
  finally show ?case .
qed

lemma map_of_rev_distinct: "distinct (map fst ws) \<Longrightarrow> map_of (rev ws) = map_of ws"
  by (subst map_of_inject_set) (simp_all add: rev_map [symmetric])

lemma map_of_dict_update:
  "distinct (map fst other) \<Longrightarrow> map_of (dict_update d other) = map_of d ++ map_of other"
  by (simp add: dict_update_def map_of_fold_update map_of_rev_distinct)

section \<open>Service entries are merged by name\<close>

lemma merge_service_append:
  "\<forall>e\<in>set found. map_of e ''Name'' \<noteq> map_of new_service ''Name'' \<Longrightarrow>
   merge_service new_service found = found @ [new_service]"
  by (induction found) auto

lemma merge_service_first_match:
  "\<forall>x\<in>set pre. map_of x ''Name'' \<noteq> map_of new_service ''Name'' \<Longrightarrow>
   map_of e ''Name'' = map_of new_service ''Name'' \<Longrightarrow>
   merge_service new_service (pre @ e # post) = pre @ dict_update e new_service # post"
  by (induction pre) auto

text \<open>
  Claim C5, as amended. Merging a freshly parsed service entry into the accumulated list of
  services: the Name of an entry is what \<open>.get('Name')\<close> returns (so an entry without a Name
  field has the name \<open>None\<close>, and two such entries have equal names). When no accumulated entry has
  the Name of the new one, the new entry is appended. Otherwise the first accumulated entry
  with that Name (\<open>e\<close>, after a prefix \<open>pre\<close> without it) is updated in place and nothing is
  appended; the update is last-write-wins per field: every field of the new entry
  overrides, every other field of the old entry stays. The two texts of the spec, each
  under the Service/Program header that makes their lines service lines, merged one
  after the other into a fresh record, leave exactly one entry with Name, Phone Numbers
  and Description.
\<close>

theorem service_dedup:
  "((\<forall>x\<in>set found. map_of x ''Name'' \<noteq> map_of new_service ''Name'') \<longrightarrow>
      merge_service new_service found = found @ [new_service])
   \<and> ((\<forall>x\<in>set pre. map_of x ''Name'' \<noteq> map_of new_service ''Name'')
        \<and> map_of e ''Name'' = map_of new_service ''Name'' \<longrightarrow>
      merge_service new_service (pre @ e # post) = pre @ dict_update e new_service # post)
   \<and> (distinct (map fst new_service) \<longrightarrow>
      map_of (dict_update e new_service) = map_of e ++ map_of new_service)
   \<and> update_found_info
        ''Service/Program Level:\<newline>- Name: Food Bank\<newline>- Phone Numbers: 555-1111'' empty_info
      = Inr (empty_info\<lparr>services_list :=
               Some [[(''Name'', ''Food Bank''), (''Phone Numbers'', ''555-1111'')]]\<rparr>)
   \<and> update_found_info
        ''Service/Program Level:\<newline>- Name: Food Bank\<newline>- Description: Provides groceries''
        (empty_info\<lparr>services_list :=
               Some [[(''Name'', ''Food Bank''), (''Phone Numbers'', ''555-1111'')]]\<rparr>)
      = Inr (empty_info\<lparr>services_list :=
               Some [[(''Name'', ''Food Bank''), (''Phone Numbers'', ''555-1111''),
                      (''Description'', ''Provides groceries'')]]\<rparr>)"
proof (intro conjI impI)
  show "update_found_info
        ''Service/Program Level:\<newline>- Name: Food Bank\<newline>- Phone Numbers: 555-1111'' empty_info
      = Inr (empty_info\<lparr>services_list :=
               Some [[(''Name'', ''Food Bank''), (''Phone Numbers'', ''555-1111'')]]\<rparr>)"
    by code_simp
  show "update_found_info
        ''Service/Program Level:\<newline>- Name: Food Bank\<newline>- Description: Provides groceries''
        (empty_info\<lparr>services_list :=
               Some [[(''Name'', ''Food Bank''), (''Phone Numbers'', ''555-1111'')]]\<rparr>)
      = Inr (empty_info\<lparr>services_list :=
               Some [[(''Name'', ''Food Bank''), (''Phone Numbers'', ''555-1111''),
                      (''Description'', ''Provides groceries'')]]\<rparr>)"
    by code_simp
qed (simp_all add: merge_service_append merge_service_first_match map_of_dict_update)

theorem service_dedup_witness:
  "map_of [(''Name'', ''Food Bank'')] ''Name'' \<noteq> map_of [(''Name'', ''Clinic'')] ''Name''
   \<and> merge_service [(''Name'', ''Clinic'')] [[(''Name'', ''Food Bank'')]]
       = [[(''Name'', ''Food Bank'')], [(''Name'', ''Clinic'')]]
   \<and> merge_service [(''Name'', ''Clinic''), (''Eligibility'', ''All'')]
        ([[(''Name'', ''Food Bank'')]] @ [(''Name'', ''Clinic''), (''Eligibility'', ''Adults'')] # [])
       = [[(''Name'', ''Food Bank'')], [(''Name'', ''Clinic''), (''Eligibility'', ''All'')]]
   \<and> map_of (dict_update [(''Name'', ''Clinic''), (''Eligibility'', ''Adults'')]
               [(''Name'', ''Clinic''), (''Eligibility'', ''All'')]) ''Eligibility'' = Some ''All''"
  using service_dedup [of "[[(''Name'', ''Food Bank'')]]" "[(''Name'', ''Clinic'')]" "[]" "[]" "[]"]
    service_dedup [of "[]" "[(''Name'', ''Clinic''), (''Eligibility'', ''All'')]"
      "[[(''Name'', ''Food Bank'')]]" "[(''Name'', ''Clinic''), (''Eligibility'', ''Adults'')]" "[]"]
  by (simp add: dict_update_def)

section \<open>The crawl controller\<close>

text \<open>
  Claim C6. A call of the crawl with a depth of zero or less, or on a URL that is already
  in the visited set or in the failed set, returns at once with the status "skipped" for
  that URL, and the controller's state after the call is the state before it: visited
  set, failed set, base URL, link superset, accumulated record and missing set alike.
\<close>

theorem skip_leaves_state:
  "depth \<le> 0 \<or> url \<in> visited_urls st \<or> url \<in> failed_urls st \<Longrightarrow>
   analyze_website E url custom_extraction depth st
     = (\<lparr>analysis = format_final_results E st, metadata = Skipped url\<rparr>, st)"
  by (simp add: analyze_website.simps)

theorem skip_leaves_state_witness:
  "((0::int) \<le> 0 \<or> ''http://example.com'' \<in> visited_urls init_state
      \<or> ''http://example.com'' \<in> failed_urls init_state)
   \<and> snd (analyze_website offline_env ''http://example.com'' None 0 init_state) = init_state
   \<and> metadata (fst (analyze_website offline_env ''http://example.com'' None 0 init_state))
       = Skipped ''http://example.com''
   \<and> ''http://example.com'' \<in> visited_urls home_visited
   \<and> snd (analyze_website offline_env ''http://example.com'' None 5 home_visited) = home_visited"
  using skip_leaves_state [of 0 "''http://example.com''" init_state offline_env None]
    skip_leaves_state [of 5 "''http://example.com''" home_visited offline_env None]
  by (simp add: home_visited_def)

section \<open>Keys that start with Field\<close>














section \<open>Next-URL resolution\<close>

lemma py_split_absent: "\<not> contains sep s \<Longrightarrow> py_split sep s = [s]"
  by (simp add: contains_def py_split.simps)

lemma next_url_value_absent:
  "\<not> contains ''NEXT_URL:'' response \<Longrightarrow> next_url_value response = Inl IndexError"
  by (simp add: next_url_value_def py_split_absent nth_part_def)

text \<open>
  Claim C7, as amended. Whatever the available links, the base URL and the rest of the
  state: next-URL resolution returns no URL when the marker \<open>NEXT_URL:\<close> is absent from
  the model output, and when the value on the marker's line, cut at the first opening
  parenthesis and trimmed, equals \<open>none\<close> without regard to case.
\<close>

theorem next_url_fails_soft:
  "(\<not> contains ''NEXT_URL:'' response \<longrightarrow> extract_next_urls E st response links = [])
   \<and> (next_url_value response = Inr v \<and> lower v = ''none'' \<longrightarrow>
        extract_next_urls E st response links = [])"
  by (simp add: extract_next_urls_def try_extract_next_urls_def next_url_value_absent)

theorem next_url_fails_soft_witness:
  "\<not> contains ''NEXT_URL:'' ''NEW_INFO:\<newline>STILL_MISSING:''
   \<and> extract_next_urls offline_env home_visited ''NEW_INFO:\<newline>STILL_MISSING:''
        [''http://example.com/about''] = []
   \<and> next_url_value ''NEXT_URL:\<newline>None (all found)'' = Inr ''None''
   \<and> lower ''None'' = ''none''
   \<and> extract_next_urls offline_env home_visited ''NEXT_URL:\<newline>None (all found)''
        [''http://example.com/about''] = []"
proof -
  have w1: "\<not> contains ''NEXT_URL:'' ''NEW_INFO:\<newline>STILL_MISSING:''"
    by code_simp
  have w2: "next_url_value ''NEXT_URL:\<newline>None (all found)'' = Inr ''None''"
    by code_simp
  have w3: "lower ''None'' = ''none''"
    by code_simp
  from next_url_fails_soft [of "''NEW_INFO:\<newline>STILL_MISSING:''" offline_env home_visited
      "[''http://example.com/about'']"]
    next_url_fails_soft [of "''NEXT_URL:\<newline>None (all found)''" offline_env home_visited
      "[''http://example.com/about'']" "''None''"]
    w1 w2 w3
  show ?thesis by simp
qed

text \<open>
  Claim C7 as stated fails for an empty value. With the home page visited and one
  available link, the output \<open>NEXT_URL:\<close> has the empty value, which is not \<open>none\<close>: it
  goes on to validation, where the candidate made from the base URL matches the first
  available link, and that link is returned. With no available link the same-domain
  fallback returns the base URL itself.
\<close>

theorem empty_next_url_counterexample:
  "next_url_value ''NEXT_URL:'' = Inr []
   \<and> extract_next_urls offline_env home_visited ''NEXT_URL:'' [''http://example.com/about'']
       = [''http://example.com/about'']
   \<and> next_url_value ''NEXT_URL: (no more pages)'' = Inr []
   \<and> extract_next_urls offline_env home_visited ''NEXT_URL: (no more pages)'' []
       = [''http://example.com'']"
  unfolding offline_env_def home_visited_def by code_simp

section \<open>Sentinel values\<close>

text \<open>
  Claim C3 at a failing input. In a section that holds a dict, the sentinel test is made
  on the whole value and the value is cut at its first colon afterwards: the line
  \<open>Eligibility: not specified: see website\<close> passes the test and stores the sentinel
  \<open>not specified\<close>.
\<close>

theorem sentinel_stored_after_cut:
  "update_found_info ''Agency Level:\<newline>Eligibility: not specified: see website'' empty_info
     = Inr (empty_info\<lparr>agency_level := Some [(''Eligibility'', ''not specified'')]\<rparr>)
   \<and> lower ''not specified'' \<in> set sentinels"
  by code_simp

section \<open>URL normaliser\<close>

text \<open>
  Claim C9 at a failing input. \<open>_clean_url\<close> replaces each pair of slashes after the
  scheme separator in one pass, so a run of three slashes leaves two: the normal form of
  \<open>http://example.com///a\<close> keeps a doubled slash and differs from the normal form of
  \<open>http://example.com/a\<close>. The spec's own example, with runs of two, does hold.
\<close>

theorem triple_slash_not_collapsed:
  "clean_url ''http://example.com///a'' = ''http://example.com//a''
   \<and> normalize_url offline_env ''http://example.com///a'' = Inr ''http://example.com//a''
   \<and> normalize_url offline_env ''http://example.com/a'' = Inr ''http://example.com/a''
   \<and> normalize_url offline_env ''HTTP://Example.com//a//b/'' = Inr ''http://example.com/a/b''
   \<and> normalize_url offline_env ''http://example.com/a/b'' = Inr ''http://example.com/a/b''"
  unfolding offline_env_def by code_simp

section \<open>Merging the same text twice\<close>

lemma alist_eqI:
  assumes "distinct (map fst A)" and "map fst A = map fst B" and "map_of A = map_of B"
  shows "A = B"
proof -
  have "map snd A = map snd B"
  proof (rule map_of_zip_inject [of _ "map fst A"])
    show "length (map snd A) = length (map fst A)" by simp
    show "length (map snd B) = length (map fst A)"
      using assms(2) by (metis length_map)
    show "distinct (map fst A)" by (rule assms(1))
    have "zip (map fst A) (map snd A) = A"
      by (rule zip_map_fst_snd)
    moreover have "zip (map fst A) (map snd B) = B"
      unfolding assms(2) by (rule zip_map_fst_snd)
    ultimately show "map_of (zip (map fst A) (map snd A)) = map_of (zip (map fst A) (map snd B))"
      using assms(3) by simp
  qed
  with assms(2) show ?thesis
    by (metis zip_map_fst_snd)
qed

lemma update_absent: "k \<notin> fst ` set d \<Longrightarrow> AList.update k v d = d @ [(k, v)]"
  by (induction d) auto

lemma fold_update_keys_present:
  "set (map fst ws) \<subseteq> set (map fst d) \<Longrightarrow>
   map fst (fold (\<lambda>(k, v). AList.update k v) ws d) = map fst d"
proof (induction ws arbitrary: d)
  case Nil
  show ?case by simp
next
  case (Cons w ws)
  obtain k v where w: "w = (k, v)" by (cases w)
  from Cons.prems have k: "k \<in> set (map fst d)" and rest: "set (map fst ws) \<subseteq> set (map fst d)"
    by (simp_all add: w)
  have same: "map fst (AList.update k v d) = map fst d"
    using k by (simp add: update_keys)
  have "map fst (fold (\<lambda>(k, v). AList.update k v) ws (AList.update k v d))
          = map fst (AList.update k v d)"
    using rest by (intro Cons.IH) (simp add: same)
  then show ?case by (simp add: w same)
qed

lemma fold_update_keys_set:
  "fst ` set (fold (\<lambda>(k, v). AList.update k v) ws d) = fst ` set d \<union> fst ` set ws"
proof (induction ws arbitrary: d)
  case Nil
  show ?case by simp
next
  case (Cons w ws)
  obtain k v where w: "w = (k, v)" by (cases w)
  have "fst ` set (AList.update k v d) = insert k (fst ` set d)"
    using dom_update [of k v d] by simp
  with Cons.IH [of "AList.update k v d"] show ?case
    by (simp add: w)
qed

lemma fold_update_distinct:
  "distinct (map fst d) \<Longrightarrow> distinct (map fst (fold (\<lambda>(k, v). AList.update k v) ws d))"
proof (induction ws arbitrary: d)
  case Nil
  then show ?case by simp
next
  case (Cons w ws)
  obtain k v where w: "w = (k, v)" by (cases w)
  from Cons.prems have "distinct (map fst (AList.update k v d))"
    by (rule distinct_update)
  then show ?case
    using Cons.IH by (simp add: w)
qed

lemma fold_update_twice:
  assumes "distinct (map fst d)"
  shows "fold (\<lambda>(k, v). AList.update k v) ws (fold (\<lambda>(k, v). AList.update k v) ws d)
           = fold (\<lambda>(k, v). AList.update k v) ws d"
proof (rule alist_eqI)
  let ?once = "fold (\<lambda>(k, v). AList.update k v) ws d"
  show "distinct (map fst (fold (\<lambda>(k, v). AList.update k v) ws ?once))"
    using assms by (intro fold_update_distinct)
  show "map fst (fold (\<lambda>(k, v). AList.update k v) ws ?once) = map fst ?once"
    by (rule fold_update_keys_present) (simp add: fold_update_keys_set)
  show "map_of (fold (\<lambda>(k, v). AList.update k v) ws ?once) = map_of ?once"
    by (rule ext) (simp add: map_of_fold_update map_add_def split: option.splits)
qed

lemma fold_update_self:
  "distinct (map fst (e @ d)) \<Longrightarrow> fold (\<lambda>(k, v). AList.update k v) d e = e @ d"
proof (induction d arbitrary: e)
  case Nil
  show ?case by simp
next
  case (Cons w d)
  obtain k v where w: "w = (k, v)" by (cases w)
  from Cons.prems have "k \<notin> fst ` set e"
    by (auto simp: w)
  then have step: "AList.update k v e = e @ [(k, v)]"
    by (rule update_absent)
  from Cons.prems have "distinct (map fst ((e @ [(k, v)]) @ d))"
    by (simp add: w)
  then have "fold (\<lambda>(k, v). AList.update k v) d (e @ [(k, v)]) = (e @ [(k, v)]) @ d"
    by (rule Cons.IH)
  then show ?case by (simp add: w step)
qed

lemma update_all_concat:
  "update_all ds e = fold (\<lambda>(k, v). AList.update k v) (concat ds) e"
  unfolding update_all_def
  by (induction ds arbitrary: e) (simp_all add: dict_update_def)

lemma update_all_absorbed:
  assumes "distinct (map fst d)"
  shows "update_all (d # ds) (update_all ds d) = update_all ds d"
proof -
  let ?ws = "d @ concat ds"
  have d: "d = fold (\<lambda>(k, v). AList.update k v) d []"
    using assms fold_update_self [of "[]" d] by simp
  have once: "update_all ds d = fold (\<lambda>(k, v). AList.update k v) ?ws []"
    by (subst d) (simp add: update_all_concat)
  have "update_all (d # ds) (update_all ds d)
          = fold (\<lambda>(k, v). AList.update k v) ?ws (fold (\<lambda>(k, v). AList.update k v) ?ws [])"
    by (simp only: once) (simp add: update_all_concat)
  also have "\<dots> = fold (\<lambda>(k, v). AList.update k v) ?ws []"
    by (rule fold_update_twice) simp
  finally show ?thesis by (simp only: once)
qed


lemma name_dict_update:
  "distinct (map fst n) \<Longrightarrow> map_of e ''Name'' = map_of n ''Name'' \<Longrightarrow>
   map_of (dict_update e n) ''Name'' = map_of n ''Name''"
  by (simp add: map_of_dict_update map_add_def split: option.splits)

lemma names_merge_service:
  "distinct (map fst n) \<Longrightarrow>
   map (\<lambda>e. map_of e ''Name'') (merge_service n F)
     = (if map_of n ''Name'' \<in> set (map (\<lambda>e. map_of e ''Name'') F)
        then map (\<lambda>e. map_of e ''Name'') F
        else map (\<lambda>e. map_of e ''Name'') F @ [map_of n ''Name''])"
  by (induction F) (auto simp: name_dict_update)

lemma find_merge_service:
  "distinct (map fst n) \<Longrightarrow>
   find (\<lambda>e. map_of e ''Name'' = nm) (merge_service n F)
     = (if nm = map_of n ''Name''
        then Some (case find (\<lambda>e. map_of e ''Name'' = nm) F of
                     None \<Rightarrow> n
                   | Some e \<Rightarrow> dict_update e n)
        else find (\<lambda>e. map_of e ''Name'' = nm) F)"
  by (induction F) (auto simp: name_dict_update)

lemma find_merge_services:
  "wf_dicts data \<Longrightarrow>
   find (\<lambda>e. map_of e ''Name'' = nm) (merge_services data F)
     = (case find (\<lambda>e. map_of e ''Name'' = nm) F of
          Some e \<Rightarrow> Some (update_all (filter (\<lambda>n. map_of n ''Name'' = nm) data) e)
        | None \<Rightarrow>
            (case filter (\<lambda>n. map_of n ''Name'' = nm) data of
               [] \<Rightarrow> None
             | d # ds \<Rightarrow> Some (update_all ds d)))"
proof (induction data arbitrary: F)
  case Nil
  show ?case
    by (simp add: merge_services_def update_all_def split: option.splits)
next
  case (Cons n data)
  from Cons.prems have n: "distinct (map fst n)" and rest: "wf_dicts data"
    by (simp_all add: wf_dicts_def)
  have step: "merge_services (n # data) F = merge_services data (merge_service n F)"
    by (simp add: merge_services_def)
  show ?case
    unfolding step Cons.IH [OF rest] find_merge_service [OF n]
    by (simp add: update_all_def split: option.splits)
qed

lemma names_merge_services_present:
  "wf_dicts data \<Longrightarrow>
   set (map (\<lambda>e. map_of e ''Name'') data) \<subseteq> set (map (\<lambda>e. map_of e ''Name'') F) \<Longrightarrow>
   map (\<lambda>e. map_of e ''Name'') (merge_services data F) = map (\<lambda>e. map_of e ''Name'') F"
proof (induction data arbitrary: F)
  case Nil
  show ?case by (simp add: merge_services_def)
next
  case (Cons n data)
  from Cons.prems have n: "distinct (map fst n)" and rest: "wf_dicts data"
    by (simp_all add: wf_dicts_def)
  have step: "merge_services (n # data) F = merge_services data (merge_service n F)"
    by (simp add: merge_services_def)
  have same: "map (\<lambda>e. map_of e ''Name'') (merge_service n F) = map (\<lambda>e. map_of e ''Name'') F"
    using Cons.prems(2) by (simp add: names_merge_service [OF n])
  have "map (\<lambda>e. map_of e ''Name'') (merge_services data (merge_service n F))
          = map (\<lambda>e. map_of e ''Name'') (merge_service n F)"
    using Cons.prems(2) by (intro Cons.IH [OF rest]) (simp add: same)
  then show ?case by (simp add: step same)
qed

lemma names_merge_services_grow:
  "wf_dicts data \<Longrightarrow>
   (\<lambda>e. map_of e ''Name'') ` set (merge_services data F)
     = (\<lambda>e. map_of e ''Name'') ` set F \<union> (\<lambda>e. map_of e ''Name'') ` set data"
proof (induction data arbitrary: F)
  case Nil
  show ?case by (simp add: merge_services_def)
next
  case (Cons n data)
  from Cons.prems have n: "distinct (map fst n)" and rest: "wf_dicts data"
    by (simp_all add: wf_dicts_def)
  have step: "merge_services (n # data) F = merge_services data (merge_service n F)"
    by (simp add: merge_services_def)
  have "set (map (\<lambda>e. map_of e ''Name'') (merge_service n F))
          = insert (map_of n ''Name'') (set (map (\<lambda>e. map_of e ''Name'') F))"
    unfolding names_merge_service [OF n] by auto
  then have "(\<lambda>e. map_of e ''Name'') ` set (merge_service n F)
          = insert (map_of n ''Name'') ((\<lambda>e. map_of e ''Name'') ` set F)"
    by simp
  with Cons.IH [OF rest, of "merge_service n F"] show ?case
    unfolding step by auto
qed

lemma names_merge_services_distinct:
  "wf_dicts data \<Longrightarrow> distinct (map (\<lambda>e. map_of e ''Name'') F) \<Longrightarrow>
   distinct (map (\<lambda>e. map_of e ''Name'') (merge_services data F))"
proof (induction data arbitrary: F)
  case Nil
  then show ?case by (simp add: merge_services_def)
next
  case (Cons n data)
  from Cons.prems have n: "distinct (map fst n)" and rest: "wf_dicts data"
    by (simp_all add: wf_dicts_def)
  have step: "merge_services (n # data) F = merge_services data (merge_service n F)"
    by (simp add: merge_services_def)
  have "distinct (map (\<lambda>e. map_of e ''Name'') (merge_service n F))"
    unfolding names_merge_service [OF n] using Cons.prems(2) by auto
  then show ?case
    unfolding step by (rule Cons.IH [OF rest])
qed

lemma services_eqI:
  "distinct (map (\<lambda>e. map_of e ''Name'') A) \<Longrightarrow>
   map (\<lambda>e. map_of e ''Name'') A = map (\<lambda>e. map_of e ''Name'') B \<Longrightarrow>
   (\<And>nm. find (\<lambda>e. map_of e ''Name'' = nm) A = find (\<lambda>e. map_of e ''Name'' = nm) B) \<Longrightarrow>
   A = B"
proof (induction A arbitrary: B)
  case Nil
  then show ?case by simp
next
  case (Cons a A)
  from Cons.prems(2) obtain b B' where B: "B = b # B'"
    and ab: "map_of a ''Name'' = map_of b ''Name''"
    and names: "map (\<lambda>e. map_of e ''Name'') A = map (\<lambda>e. map_of e ''Name'') B'"
    by (cases B) auto
  from Cons.prems(3) [of "map_of a ''Name''"] have "a = b"
    by (simp add: B ab)
  from Cons.prems(1) have fresh: "map_of a ''Name'' \<notin> set (map (\<lambda>e. map_of e ''Name'') A)"
    and dist: "distinct (map (\<lambda>e. map_of e ''Name'') A)"
    by simp_all
  have "find (\<lambda>e. map_of e ''Name'' = nm) A = find (\<lambda>e. map_of e ''Name'' = nm) B'" for nm
  proof (cases "nm = map_of a ''Name''")
    case True
    have "find (\<lambda>e. map_of e ''Name'' = nm) A = None"
      using fresh True by (fastforce simp: find_None_iff image_iff)
    moreover have "find (\<lambda>e. map_of e ''Name'' = nm) B' = None"
      using fresh True unfolding names by (fastforce simp: find_None_iff image_iff)
    ultimately show ?thesis by simp
  next
    case False
    with Cons.prems(3) [of nm] show ?thesis
      by (simp add: B ab [symmetric])
  qed
  with Cons.IH [OF dist names] have "A = B'" by blast
  with \<open>a = b\<close> show ?case by (simp add: B)
qed

lemma merge_services_twice:
  assumes "wf_dicts data"
  shows "merge_services data (merge_services data []) = merge_services data []"
proof (rule services_eqI)
  let ?R = "merge_services data []"
  have dR: "distinct (map (\<lambda>e. map_of e ''Name'') ?R)"
    using assms by (intro names_merge_services_distinct) simp_all
  show "distinct (map (\<lambda>e. map_of e ''Name'') (merge_services data ?R))"
    using assms dR by (rule names_merge_services_distinct)
  show "map (\<lambda>e. map_of e ''Name'') (merge_services data ?R) = map (\<lambda>e. map_of e ''Name'') ?R"
    using assms by (intro names_merge_services_present) (simp_all add: names_merge_services_grow)
  fix nm
  let ?ds = "filter (\<lambda>n. map_of n ''Name'' = nm) data"
  have once: "find (\<lambda>e. map_of e ''Name'' = nm) ?R
                = (case ?ds of [] \<Rightarrow> None | d # ds \<Rightarrow> Some (update_all ds d))"
    by (simp add: find_merge_services [OF assms])
  show "find (\<lambda>e. map_of e ''Name'' = nm) (merge_services data ?R)
          = find (\<lambda>e. map_of e ''Name'' = nm) ?R"
  proof (cases ?ds)
    case Nil
    then show ?thesis
      by (simp add: find_merge_services [OF assms])
  next
    case (Cons d ds)
    then have "d \<in> set (filter (\<lambda>n. map_of n ''Name'' = nm) data)"
      by simp
    then have "d \<in> set data"
      by simp
    with assms have "distinct (map fst d)"
      by (simp add: wf_dicts_def list_all_iff)
    then have "update_all (d # ds) (update_all ds d) = update_all ds d"
      by (rule update_all_absorbed)
    then show ?thesis
      unfolding find_merge_services [OF assms, of nm ?R] once
      by (simp add: Cons)
  qed
qed


lemma merge_fields_fresh:
  "distinct (map fst (found @ data)) \<Longrightarrow> merge_fields data found = found @ data"
proof (induction data arbitrary: found)
  case Nil
  show ?case by simp
next
  case (Cons kv data)
  obtain k v where kv: "kv = (k, v)" by (cases kv)
  from Cons.prems have absent: "k \<notin> fst ` set found"
    by (auto simp: kv)
  then have none: "map_of found k = None"
    by (simp add: map_of_eq_None_iff)
  from Cons.prems have "distinct (map fst ((found @ [(k, v)]) @ data))"
    by (simp add: kv)
  then have "merge_fields data (found @ [(k, v)]) = (found @ [(k, v)]) @ data"
    by (rule Cons.IH)
  then show ?case
    by (simp add: kv none update_absent [OF absent])
qed

lemma merge_fields_no_longer:
  "\<forall>kv\<in>set data. \<exists>old. map_of found (fst kv) = Some old \<and> length (snd kv) \<le> length old \<Longrightarrow>
   merge_fields data found = found"
  by (induction data) (auto split: option.splits)

lemma merge_fields_twice:
  assumes "distinct (map fst data)"
  shows "merge_fields data (merge_fields data []) = merge_fields data []"
proof -
  have once: "merge_fields data [] = data"
    using assms merge_fields_fresh [of "[]" data] by simp
  have "merge_fields data data = data"
  proof (rule merge_fields_no_longer, rule ballI)
    fix kv assume "kv \<in> set data"
    with assms have "map_of data (fst kv) = Some (snd kv)"
      by (cases kv) simp
    then show "\<exists>old. map_of data (fst kv) = Some old \<and> length (snd kv) \<le> length old"
      by simp
  qed
  then show ?thesis by (simp add: once)
qed

lemma merge_temp_info_twice:
  assumes "wf_info t"
  shows "merge_temp_info t (merge_temp_info t empty_info) = merge_temp_info t empty_info"
proof -
  have a: "agency_level t = Some d \<Longrightarrow> merge_fields d (merge_fields d []) = merge_fields d []" for d
    using assms by (intro merge_fields_twice) (simp add: wf_info_def)
  have s: "site_level t = Some d \<Longrightarrow> merge_fields d (merge_fields d []) = merge_fields d []" for d
    using assms by (intro merge_fields_twice) (simp add: wf_info_def)
  have l: "services_list t = Some l \<Longrightarrow>
             merge_services l (merge_services l []) = merge_services l []" for l
    using assms by (intro merge_services_twice) (simp add: wf_info_def)
  show ?thesis
    by (simp add: merge_temp_info_def empty_info_def a s l split: option.splits)
qed

lemma wf_info_init_section: "wf_info t \<Longrightarrow> wf_info (init_section sec t)"
  by (cases sec) (auto simp: wf_info_def wf_dicts_def split: option.splits)

lemma wf_info_check_header:
  "wf_info (temp_info ps) \<Longrightarrow> wf_info (temp_info (check_header line ps))"
  by (auto simp: check_header_def wf_info_init_section split: option.splits)

lemma wf_info_start_service:
  "wf_info (temp_info ps) \<Longrightarrow> start_service ps = Inr ps' \<Longrightarrow> wf_info (temp_info ps')"
  by (auto simp: start_service_def wf_info_def wf_dicts_def split: option.splits)

lemma wf_dicts_list_update:
  "wf_dicts l \<Longrightarrow> distinct (map fst d) \<Longrightarrow> wf_dicts (l[i := d])"
  unfolding wf_dicts_def list_all_iff
  by (auto dest: set_update_subset_insert [THEN subsetD])

lemma wf_info_set_service_field:
  "wf_info (temp_info ps) \<Longrightarrow> set_service_field i key val ps = Inr ps' \<Longrightarrow>
   wf_info (temp_info ps')"
proof -
  assume inv: "wf_info (temp_info ps)" and run: "set_service_field i key val ps = Inr ps'"
  from run obtain l where l: "services_list (temp_info ps) = Some l" and i: "i < length l"
    and ps': "ps' = ps\<lparr>temp_info :=
                (temp_info ps)\<lparr>services_list := Some (l[i := AList.update key val (l ! i)])\<rparr>\<rparr>"
    by (auto simp: set_service_field_def nth_part_def split: option.splits if_splits)
  from inv l have wl: "wf_dicts l"
    by (simp add: wf_info_def)
  with i have "distinct (map fst (l ! i))"
    by (simp add: wf_dicts_def list_all_length)
  then have "distinct (map fst (AList.update key val (l ! i)))"
    by (rule distinct_update)
  with wl have "wf_dicts (l[i := AList.update key val (l ! i)])"
    by (rule wf_dicts_list_update)
  with inv show ?thesis
    by (simp add: ps' wf_info_def)
qed

lemma wf_info_service_line:
  "wf_info (temp_info ps) \<Longrightarrow> service_line line ps = Inr ps' \<Longrightarrow> wf_info (temp_info ps')"
proof -
  assume inv: "wf_info (temp_info ps)" and run: "service_line line ps = Inr ps'"
  from run obtain ps1 where
    ps1: "(if startswith line ''- Name:'' then start_service ps else Inr ps) = Inr ps1"
    by (auto simp: service_line_def split: sum.splits)
  with inv have inv1: "wf_info (temp_info ps1)"
    by (auto split: if_splits dest: wf_info_start_service)
  from run ps1 inv1 show ?thesis
    by (auto simp: service_line_def Let_def dest: wf_info_set_service_field
          split: option.splits if_splits list.splits)
qed

lemma wf_info_set_section_field:
  "wf_info t \<Longrightarrow> set_section_field sec key val t = Inr t' \<Longrightarrow> wf_info t'"
  by (cases sec) (auto simp: wf_info_def distinct_update split: option.splits)

lemma wf_info_field_line:
  "wf_info (temp_info ps) \<Longrightarrow> field_line line ps = Inr ps' \<Longrightarrow> wf_info (temp_info ps')"
  by (auto simp: field_line_def Let_def dest: wf_info_set_section_field
        split: if_splits option.splits sum.splits list.splits)

lemma wf_info_parse_line:
  "wf_info (temp_info ps) \<Longrightarrow> parse_line ps raw = Inr ps' \<Longrightarrow> wf_info (temp_info ps')"
proof -
  assume inv: "wf_info (temp_info ps)" and run: "parse_line ps raw = Inr ps'"
  have h: "wf_info (temp_info (check_header (strip raw) ps))"
    using inv by (rule wf_info_check_header)
  from run inv show ?thesis
    unfolding parse_line_def Let_def
    by (auto split: if_splits simp: h
          intro: wf_info_field_line [OF h] wf_info_service_line [OF h])
qed

lemma wf_info_parse_lines:
  "wf_info (temp_info ps) \<Longrightarrow> parse_lines ps ls = Inr ps' \<Longrightarrow> wf_info (temp_info ps')"
proof (induction ls arbitrary: ps)
  case Nil
  then show ?case by simp
next
  case (Cons l ls)
  then show ?case
    by (auto split: sum.splits dest: wf_info_parse_line)
qed

text \<open>
  Claim C4. Merging an extraction text into a fresh accumulator and then merging the same
  text again leaves the record that the first merge left. \<open>found_after\<close> is the record
  after a call, so a parse that raises leaves the record fresh both times. In a section
  that holds a dict, a value replaces the stored one only when it is strictly longer, so
  a value of equal (or smaller) length keeps the existing one.
\<close>

theorem remerge_idempotent:
  "found_after new_info (found_after new_info empty_info) = found_after new_info empty_info
   \<and> (map_of found key = Some old \<and> length val \<le> length old \<longrightarrow>
        merge_fields [(key, val)] found = found)"
proof (intro conjI impI)
  show "found_after new_info (found_after new_info empty_info) = found_after new_info empty_info"
  proof (cases "parse_lines init_parse_state (py_split ''\<newline>'' new_info)")
    case (Inl e)
    then show ?thesis
      by (simp add: found_after_def update_found_info_def)
  next
    case (Inr ps)
    have "wf_info (temp_info init_parse_state)"
      by (simp add: init_parse_state_def empty_info_def wf_info_def)
    then have "wf_info (temp_info ps)"
      using Inr by (rule wf_info_parse_lines)
    then show ?thesis
      by (simp add: found_after_def update_found_info_def Inr merge_temp_info_twice)
  qed
next
  assume "map_of found key = Some old \<and> length val \<le> length old"
  then show "merge_fields [(key, val)] found = found"
    by simp
qed

theorem remerge_idempotent_witness:
  "found_after ''Agency Level:\<newline>Phone Numbers: 555-1111\<newline>Service/Program Level:\<newline>- Name: Food Bank''
     empty_info
     = empty_info\<lparr>agency_level := Some [(''Phone Numbers'', ''555-1111'')],
                    services_list := Some [[(''Name'', ''Food Bank'')]]\<rparr>
   \<and> found_after ''Agency Level:\<newline>Phone Numbers: 555-1111\<newline>Service/Program Level:\<newline>- Name: Food Bank''
       (empty_info\<lparr>agency_level := Some [(''Phone Numbers'', ''555-1111'')],
                    services_list := Some [[(''Name'', ''Food Bank'')]]\<rparr>)
     = empty_info\<lparr>agency_level := Some [(''Phone Numbers'', ''555-1111'')],
                    services_list := Some [[(''Name'', ''Food Bank'')]]\<rparr>
   \<and> map_of [(''Phone Numbers'', ''555-1111'')] ''Phone Numbers'' = Some ''555-1111''
   \<and> length ''555-2222'' \<le> length ''555-1111''
   \<and> merge_fields [(''Phone Numbers'', ''555-2222'')] [(''Phone Numbers'', ''555-1111'')]
       = [(''Phone Numbers'', ''555-1111'')]"
proof -
  have once:
    "found_after ''Agency Level:\<newline>Phone Numbers: 555-1111\<newline>Service/Program Level:\<newline>- Name: Food Bank''
       empty_info
     = empty_info\<lparr>agency_level := Some [(''Phone Numbers'', ''555-1111'')],
                    services_list := Some [[(''Name'', ''Food Bank'')]]\<rparr>"
    by code_simp
  from remerge_idempotent
      [of "''Agency Level:\<newline>Phone Numbers: 555-1111\<newline>Service/Program Level:\<newline>- Name: Food Bank''"
          "[(''Phone Numbers'', ''555-1111'')]" "''Phone Numbers''" "''555-1111''" "''555-2222''"]
  show ?thesis
    unfolding once by simp
qed

section \<open>A page that cannot be fetched\<close>

lemma analyze_content_frame:
  "visited_urls (snd (analyze_content E scraped q st)) = visited_urls st
   \<and> failed_urls (snd (analyze_content E scraped q st)) = failed_urls st
   \<and> base_url (snd (analyze_content E scraped q st)) = base_url st
   \<and> all_internal_links (snd (analyze_content E scraped q st)) = all_internal_links st"
  by (auto simp: analyze_content_def merge_custom_def merge_default_def Let_def
        split: sum.splits option.splits prod.splits if_splits)

lemma set_base_url_truthy: "set_base_url E url st = Inr st' \<Longrightarrow> truthy (base_url st')"
  by (auto simp: set_base_url_def truthy_def split: if_splits sum.splits)

lemma set_base_url_keeps:
  "truthy (base_url st) \<Longrightarrow> set_base_url E url st = Inr st"
  by (simp add: set_base_url_def)

lemma failed_visit:
  assumes "0 < depth" and "url \<notin> visited_urls st" and "url \<notin> failed_urls st"
    and "truthy (base_url st)" and "scrape_website E url = Inl e"
  shows "analyze_website E url q depth st
           = (\<lparr>analysis = format_final_results E
                  (st\<lparr>visited_urls := insert url (visited_urls st),
                      failed_urls := insert url (failed_urls st)\<rparr>),
               metadata = Failed url e\<rparr>,
              st\<lparr>visited_urls := insert url (visited_urls st),
                  failed_urls := insert url (failed_urls st)\<rparr>)"
proof -
  have base: "set_base_url E url (st\<lparr>visited_urls := insert url (visited_urls st)\<rparr>)
                = Inr (st\<lparr>visited_urls := insert url (visited_urls st)\<rparr>)"
    using assms(4) by (intro set_base_url_keeps) simp
  show ?thesis
    using assms(1-3,5)
    by (subst analyze_website.simps) (simp add: base failed_result_def Let_def)
qed


lemma field_line_in_section:
  "sec = Some d \<Longrightarrow> kv \<in> set d \<Longrightarrow> field_text kv \<in> set (section_lines name sec)"
  by (simp add: section_lines_def)


lemma contains_mid: "contains sub (pre @ sub @ post)"
proof (induction pre)
  case Nil
  have st: "startswith (sub @ post) sub"
    by (simp add: startswith_def)
  show ?case
  proof (cases "sub @ post")
    case Nil
    then show ?thesis by (simp add: contains_def)
  next
    case (Cons c cs)
    with st have "startswith (c # cs) sub" by simp
    then have "find_sub sub (c # cs) = Some 0" by simp
    with Cons show ?thesis by (simp add: contains_def)
  qed
next
  case (Cons c pre)
  then show ?case
    by (auto simp: contains_def)
qed

lemma join_member: "x \<in> set xs \<Longrightarrow> \<exists>pre post. join sep xs = pre @ x @ post"
proof (induction sep xs rule: join.induct)
  case (1 sep)
  then show ?case by simp
next
  case (2 sep y)
  then have "join sep [y] = [] @ x @ []" by simp
  then show ?case by blast
next
  case (3 sep y z zs)
  show ?case
  proof (cases "x = y")
    case True
    then have "join sep (y # z # zs) = [] @ x @ (sep @ join sep (z # zs))" by simp
    then show ?thesis by blast
  next
    case False
    with "3.prems" have "x \<in> set (z # zs)" by simp
    with "3.IH" obtain pre post where "join sep (z # zs) = pre @ x @ post" by blast
    then have "join sep (y # z # zs) = (y @ sep @ pre) @ x @ post" by simp
    then show ?thesis by blast
  qed
qed

lemma contains_join: "x \<in> set xs \<Longrightarrow> contains x (join sep xs)"
  using join_member [of x xs sep] contains_mid by fastforce

lemma service_field_line:
  assumes "svc \<in> set l" and "key \<in> set canonical_fields" and "map_of svc key = Some val"
  shows "''  '' @ key @ '': '' @ val \<in> set (services_lines (Some l))"
proof -
  from assms(1) obtain i where i: "i < length l" and svc: "l ! i = svc"
    by (auto simp: in_set_conv_nth)
  have "[1 ..< Suc (length l)] ! i = Suc i"
    using i nth_upt [of 1 i "Suc (length l)"] by simp
  with i svc have "(Suc i, svc) \<in> set (zip [1 ..< Suc (length l)] l)"
    unfolding in_set_zip by (intro exI [of _ i]) simp
  moreover have "''  '' @ key @ '': '' @ val \<in> set (service_lines (Suc i, svc))"
    using assms(2,3) by (force simp: service_lines_def)
  moreover have "l \<noteq> []"
    using assms(1) by auto
  ultimately have "''  '' @ key @ '': '' @ val
      \<in> set (concat (map service_lines (zip [1 ..< Suc (length l)] l)))"
    unfolding set_concat set_map by blast
  with \<open>l \<noteq> []\<close> show ?thesis
    unfolding services_lines_def by (simp del: upt_Suc)
qed



text \<open>
  Claim C2, as amended. Page \<open>a\<close> is visited with a depth of at least two, its fetch
  succeeds, its analysis returns (state \<open>st4\<close>: everything merged from \<open>a\<close> is in
  \<open>found_info st4\<close>) and the next URL resolves to a page \<open>b\<close>, not yet visited or failed,
  whose fetch raises. Then the visit of \<open>b\<close> returns a result, with the error in its
  metadata: nothing is raised past it. Its only effects are that \<open>b\<close> is added to the
  visited and to the failed set (state \<open>st5\<close>). The visit of \<open>a\<close> returns normally, and its
  report is formatted from \<open>st5\<close>, whose accumulated record is that of \<open>st4\<close>. In default
  mode the returned report text contains, as \<open>key: value\<close>, every Agency Level and Site
  Level field of that record, and for every service entry every field whose key is one of
  the eleven names the formatter renders; in custom mode it contains every Custom field.
  Up to its last two lines (the Source URLs, where \<open>b\<close> is now listed) the report is, line
  for line, the report that the state right after the merge from \<open>a\<close> gives.
\<close>

theorem failure_isolation:
  assumes "1 < depth" and "a \<notin> visited_urls st" and "a \<notin> failed_urls st"
    and "set_base_url E a (st\<lparr>visited_urls := insert a (visited_urls st)\<rparr>) = Inr st2"
    and "scrape_website E a = Inr page"
    and "st3 = st2\<lparr>all_internal_links := all_internal_links st2 \<union> set (internal_links page)\<rparr>"
    and "links = set_iter E (all_internal_links st3)"
    and "analyze_content E (page\<lparr>internal_links := links\<rparr>) q st3 = (Inr response, st4)"
    and "contains ''NEXT_URL:'' response"
    and "extract_next_urls E st4 response links = [b]"
    and "b \<notin> visited_urls st4" and "b \<notin> failed_urls st4"
    and "scrape_website E b = Inl e"
    and "st5 = st4\<lparr>visited_urls := insert b (visited_urls st4),
                    failed_urls := insert b (failed_urls st4)\<rparr>"
    and "report = analysis (fst (analyze_website E a q depth st))"
  shows "analyze_website E b q (depth - 1) st4
           = (\<lparr>analysis = format_final_results E st5, metadata = Failed b e\<rparr>, st5)
         \<and> analyze_website E a q depth st
           = (\<lparr>analysis = (if truthy q then format_custom_results E (the q) st5
                            else format_final_results E st5),
               metadata = Page (meta_title page) (meta_url page) links\<rparr>,
              st5)
         \<and> b \<in> failed_urls st5
         \<and> found_info st5 = found_info st4
         \<and> (\<not> truthy q \<longrightarrow>
               (\<forall>d kv. agency_level (found_info st4) = Some d \<and> kv \<in> set d \<longrightarrow>
                  contains (field_text kv) report)
               \<and> (\<forall>d kv. site_level (found_info st4) = Some d \<and> kv \<in> set d \<longrightarrow>
                  contains (field_text kv) report)
               \<and> (\<forall>l svc key val. services_list (found_info st4) = Some l \<and> svc \<in> set l
                     \<and> key \<in> set canonical_fields \<and> map_of svc key = Some val \<longrightarrow>
                  contains (''  '' @ key @ '': '' @ val) report))
         \<and> (truthy q \<longrightarrow>
               (\<forall>d kv. custom (found_info st4) = Some d \<and> kv \<in> set d \<longrightarrow>
                  contains (field_text kv) report))
         \<and> (\<exists>pre. format_final_lines E st4 = pre @ source_lines E st4
                  \<and> format_final_lines E st5 = pre @ source_lines E st5)
         \<and> (\<exists>pre. format_custom_lines E (the q) st4 = pre @ source_lines E st4
                  \<and> format_custom_lines E (the q) st5 = pre @ source_lines E st5)"
proof -
  have "truthy (base_url st2)"
    using assms(4) by (rule set_base_url_truthy)
  then have "truthy (base_url st3)"
    by (simp add: assms(6))
  moreover have "base_url st4 = base_url st3"
    using analyze_content_frame [of E "page\<lparr>internal_links := links\<rparr>" q st3]
    by (simp add: assms(8))
  ultimately have base4: "truthy (base_url st4)"
    by simp
  have visit_b: "analyze_website E b q (depth - 1) st4
           = (\<lparr>analysis = format_final_results E st5, metadata = Failed b e\<rparr>, st5)"
    unfolding assms(14)
    using assms(1) assms(11) assms(12) base4 assms(13)
    by (intro failed_visit) simp_all
  have visit_a: "analyze_website E a q depth st
           = (\<lparr>analysis = (if truthy q then format_custom_results E (the q) st5
                            else format_final_results E st5),
               metadata = Page (meta_title page) (meta_url page) links\<rparr>,
              st5)"
    using assms(1-3) assms(11,12)
    by (subst analyze_website.simps)
       (simp add: assms(4) assms(5) assms(6) [symmetric] assms(7) [symmetric] assms(8)
          assms(9) assms(10) visit_b Let_def)
  have found: "found_info st5 = found_info st4"
    by (simp add: assms(14))
  have final: "report = join ''\<newline>'' (format_final_lines E st5)" if "\<not> truthy q"
    using that by (simp add: assms(15) visit_a format_final_results_def)
  have custom: "report = join ''\<newline>'' (format_custom_lines E (the q) st5)" if "truthy q"
    using that by (simp add: assms(15) visit_a format_custom_results_def)
  have agency: "contains (field_text kv) report"
    if "\<not> truthy q" and "agency_level (found_info st4) = Some d \<and> kv \<in> set d" for d kv
  proof -
    have "field_text kv \<in> set (format_final_lines E st5)"
      using that(2) field_line_in_section [of "agency_level (found_info st4)" d kv "''Agency Level''"]
      by (simp add: format_final_lines_def found)
    then show ?thesis
      unfolding final [OF that(1)] by (rule contains_join)
  qed
  have site: "contains (field_text kv) report"
    if "\<not> truthy q" and "site_level (found_info st4) = Some d \<and> kv \<in> set d" for d kv
  proof -
    have "field_text kv \<in> set (format_final_lines E st5)"
      using that(2) field_line_in_section [of "site_level (found_info st4)" d kv "''Site Level''"]
      by (simp add: format_final_lines_def found)
    then show ?thesis
      unfolding final [OF that(1)] by (rule contains_join)
  qed
  have services: "contains (''  '' @ key @ '': '' @ val) report"
    if "\<not> truthy q"
      and "services_list (found_info st4) = Some l \<and> svc \<in> set l
             \<and> key \<in> set canonical_fields \<and> map_of svc key = Some val"
    for l svc key val
  proof -
    have "''  '' @ key @ '': '' @ val \<in> set (services_lines (Some l))"
      using that(2) service_field_line [of svc l key val] by simp
    then have "''  '' @ key @ '': '' @ val \<in> set (format_final_lines E st5)"
      using that(2) by (simp add: format_final_lines_def found)
    then show ?thesis
      unfolding final [OF that(1)] by (rule contains_join)
  qed
  have cust: "contains (field_text kv) report"
    if "truthy q" and "custom (found_info st4) = Some d \<and> kv \<in> set d" for d kv
  proof -
    have "field_text kv \<in> set (format_custom_lines E (the q) st5)"
      using that(2) by (simp add: format_custom_lines_def found)
    then show ?thesis
      unfolding custom [OF that(1)] by (rule contains_join)
  qed
  have failed: "b \<in> failed_urls st5"
    by (simp add: assms(14))
  have missing: "missing_info st5 = missing_info st4"
    by (simp add: assms(14))
  have same_final: "\<exists>pre. format_final_lines E st4 = pre @ source_lines E st4
                      \<and> format_final_lines E st5 = pre @ source_lines E st5"
    by (simp add: format_final_lines_def missing_lines_def found missing)
  have same_custom: "\<exists>pre. format_custom_lines E (the q) st4 = pre @ source_lines E st4
                      \<and> format_custom_lines E (the q) st5 = pre @ source_lines E st5"
    by (simp add: format_custom_lines_def found)
  from visit_b visit_a failed found agency site services cust same_final same_custom
  show ?thesis
    by blast
qed

theorem failure_isolation_witness:
  "analyze_website broken_about_env ''http://example.com'' None 5 init_state
     = (\<lparr>analysis =
           ''Complete Service Provider Profile:\<newline>\<newline>=== Agency Level ===\<newline>\<newline>Agency Name: Example Aid\<newline>\<newline>=== Services/Programs ===\<newline>\<newline>Service 1:\<newline>  Name: Food Bank\<newline>\<newline>=== MISSING INFORMATION ===\<newline>Phone Numbers\<newline>\<newline>=== SOURCE URLS ===\<newline>http://example.com, http://example.com/about'',
         metadata = Page ''Home'' ''http://example.com'' [''http://example.com/about'']\<rparr>,
        \<lparr>visited_urls = {''http://example.com'', ''http://example.com/about''},
         base_url = Some ''http://example.com'',
         found_info = empty_info\<lparr>agency_level := Some [(''Agency Name'', ''Example Aid'')],
                        services_list := Some [[(''Name'', ''Food Bank''), (''Languages'', ''Spanish'')]]\<rparr>,
         missing_info = {''Phone Numbers''},
         failed_urls = {''http://example.com/about''},
         all_internal_links = {''http://example.com/about''}\<rparr>)
   \<and> metadata (fst (analyze_website broken_about_env ''http://example.com/about'' None 4
        \<lparr>visited_urls = {''http://example.com''},
         base_url = Some ''http://example.com'',
         found_info = empty_info\<lparr>agency_level := Some [(''Agency Name'', ''Example Aid'')],
                        services_list := Some [[(''Name'', ''Food Bank''), (''Languages'', ''Spanish'')]]\<rparr>,
         missing_info = {''Phone Numbers''},
         failed_urls = {},
         all_internal_links = {''http://example.com/about''}\<rparr>))
       = Failed ''http://example.com/about'' (FetchError ''503'')
   \<and> contains ''Agency Name: Example Aid''
        (analysis (fst (analyze_website broken_about_env ''http://example.com'' None 5 init_state)))
   \<and> contains ''  Name: Food Bank''
        (analysis (fst (analyze_website broken_about_env ''http://example.com'' None 5 init_state)))"
proof -
  let ?a = "''http://example.com''" and ?b = "''http://example.com/about''"
  let ?st2 = "init_state\<lparr>visited_urls := {?a}, base_url := Some ?a\<rparr>"
  let ?st3 = "?st2\<lparr>all_internal_links := {?b}\<rparr>"
  let ?found = "empty_info\<lparr>agency_level := Some [(''Agency Name'', ''Example Aid'')],
                  services_list := Some [[(''Name'', ''Food Bank''), (''Languages'', ''Spanish'')]]\<rparr>"
  let ?st4 = "\<lparr>visited_urls = {?a}, base_url = Some ?a, found_info = ?found,
               missing_info = {''Phone Numbers''}, failed_urls = {},
               all_internal_links = {?b}\<rparr>"
  let ?st5 = "?st4\<lparr>visited_urls := insert ?b (visited_urls ?st4),
                    failed_urls := insert ?b (failed_urls ?st4)\<rparr>"
  let ?response = "''NEW_INFO:\<newline>Agency Level:\<newline>Agency Name: Example Aid\<newline>Service/Program Level:\<newline>- Name: Food Bank\<newline>- Languages: Spanish\<newline>STILL_MISSING:\<newline>Phone Numbers\<newline>NEXT_URL: /about''"
  let ?report = "analysis (fst (analyze_website broken_about_env ?a None 5 init_state))"
  have h4: "set_base_url broken_about_env ?a (init_state\<lparr>visited_urls := insert ?a (visited_urls init_state)\<rparr>)
              = Inr ?st2"
    unfolding broken_about_env_def by code_simp
  have h5: "scrape_website broken_about_env ?a = Inr home_page"
    unfolding broken_about_env_def by code_simp
  have h6: "?st3 = ?st2\<lparr>all_internal_links := all_internal_links ?st2 \<union> set (internal_links home_page)\<rparr>"
    by code_simp
  have h7: "[?b] = set_iter broken_about_env (all_internal_links ?st3)"
    unfolding broken_about_env_def by code_simp
  have h8: "analyze_content broken_about_env (home_page\<lparr>internal_links := [?b]\<rparr>) None ?st3
              = (Inr ?response, ?st4)"
    unfolding broken_about_env_def by code_simp
  have h9: "contains ''NEXT_URL:'' ?response"
    by code_simp
  have h10: "extract_next_urls broken_about_env ?st4 ?response [?b] = [?b]"
    unfolding broken_about_env_def by code_simp
  have h13: "scrape_website broken_about_env ?b = Inl (FetchError ''503'')"
    unfolding broken_about_env_def by code_simp
  have r: "format_final_results broken_about_env ?st5
           = ''Complete Service Provider Profile:\<newline>\<newline>=== Agency Level ===\<newline>\<newline>Agency Name: Example Aid\<newline>\<newline>=== Services/Programs ===\<newline>\<newline>Service 1:\<newline>  Name: Food Bank\<newline>\<newline>=== MISSING INFORMATION ===\<newline>Phone Numbers\<newline>\<newline>=== SOURCE URLS ===\<newline>http://example.com, http://example.com/about''"
    unfolding broken_about_env_def by code_simp
  have m: "Page (meta_title home_page) (meta_url home_page) [?b] = Page ''Home'' ?a [?b]"
    by code_simp
  have f1: "field_text (''Agency Name'', ''Example Aid'') = ''Agency Name: Example Aid''"
    by code_simp
  have f2: "''Name'' \<in> set canonical_fields"
    by code_simp
  have p1: "(1::int) < 5"
    by simp
  have p2: "?a \<notin> visited_urls init_state" and p3: "?a \<notin> failed_urls init_state"
    by (simp_all add: init_state_def)
  have p11: "?b \<notin> visited_urls ?st4" and p12: "?b \<notin> failed_urls ?st4"
    by simp_all
  have q: "\<not> truthy None"
    by (simp add: truthy_def)
  note main = failure_isolation [OF p1 p2 p3 h4 h5 h6 h7 h8 h9 h10 p11 p12 h13 refl refl]
  have visit_b: "analyze_website broken_about_env ?b None (5 - 1) ?st4
           = (\<lparr>analysis = format_final_results broken_about_env ?st5,
               metadata = Failed ?b (FetchError ''503'')\<rparr>, ?st5)"
    using main by (rule conjunct1)
  have visit_a: "analyze_website broken_about_env ?a None 5 init_state
           = (\<lparr>analysis = format_final_results broken_about_env ?st5,
               metadata = Page (meta_title home_page) (meta_url home_page) [?b]\<rparr>, ?st5)"
    using main [THEN conjunct2, THEN conjunct1] q by simp
  have fields: "(\<forall>d kv. agency_level (found_info ?st4) = Some d \<and> kv \<in> set d \<longrightarrow>
                  contains (field_text kv) ?report)
               \<and> (\<forall>d kv. site_level (found_info ?st4) = Some d \<and> kv \<in> set d \<longrightarrow>
                  contains (field_text kv) ?report)
               \<and> (\<forall>l svc key val. services_list (found_info ?st4) = Some l \<and> svc \<in> set l
                     \<and> key \<in> set canonical_fields \<and> map_of svc key = Some val \<longrightarrow>
                  contains (''  '' @ key @ '': '' @ val) ?report)"
    using main [THEN conjunct2, THEN conjunct2, THEN conjunct2, THEN conjunct2, THEN conjunct1] q
    by (rule mp)
  have "agency_level (found_info ?st4) = Some [(''Agency Name'', ''Example Aid'')]
          \<and> (''Agency Name'', ''Example Aid'') \<in> set [(''Agency Name'', ''Example Aid'')]"
    by simp
  with fields have agency: "contains (field_text (''Agency Name'', ''Example Aid'')) ?report"
    by blast
  have "services_list (found_info ?st4) = Some [[(''Name'', ''Food Bank''), (''Languages'', ''Spanish'')]]
          \<and> [(''Name'', ''Food Bank''), (''Languages'', ''Spanish'')]
                \<in> set [[(''Name'', ''Food Bank''), (''Languages'', ''Spanish'')]]
          \<and> ''Name'' \<in> set canonical_fields
          \<and> map_of [(''Name'', ''Food Bank''), (''Languages'', ''Spanish'')] ''Name'' = Some ''Food Bank''"
    using f2 by simp
  with fields have service: "contains (''  '' @ ''Name'' @ '': '' @ ''Food Bank'') ?report"
    by blast
  have b_meta: "metadata (fst (analyze_website broken_about_env ?b None 4 ?st4))
                  = Failed ?b (FetchError ''503'')"
    using visit_b by simp
  have a_all: "analyze_website broken_about_env ?a None 5 init_state
     = (\<lparr>analysis =
           ''Complete Service Provider Profile:\<newline>\<newline>=== Agency Level ===\<newline>\<newline>Agency Name: Example Aid\<newline>\<newline>=== Services/Programs ===\<newline>\<newline>Service 1:\<newline>  Name: Food Bank\<newline>\<newline>=== MISSING INFORMATION ===\<newline>Phone Numbers\<newline>\<newline>=== SOURCE URLS ===\<newline>http://example.com, http://example.com/about'',
         metadata = Page ''Home'' ''http://example.com'' [''http://example.com/about'']\<rparr>,
        \<lparr>visited_urls = {''http://example.com'', ''http://example.com/about''},
         base_url = Some ''http://example.com'',
         found_info = ?found,
         missing_info = {''Phone Numbers''},
         failed_urls = {''http://example.com/about''},
         all_internal_links = {''http://example.com/about''}\<rparr>)"
    unfolding visit_a r m by (simp add: insert_commute)
  from a_all b_meta agency service show ?thesis
    unfolding f1 by simp
qed

text \<open>
  Claim C2 as stated fails on "every field merged from A". The answer for the home page
  holds a service entry with the field \<open>Languages: Spanish\<close>; the entry is stored with that
  field, the about page then fails to be fetched, and the report returned for the home
  page does not contain \<open>Spanish\<close>: the formatter renders service fields under its eleven
  fixed names only.
\<close>

theorem unrendered_service_field_counterexample:
  "services_list (found_info (snd (analyze_content broken_about_env
       (home_page\<lparr>internal_links := [''http://example.com/about'']\<rparr>) None
       (init_state\<lparr>visited_urls := {''http://example.com''}, base_url := Some ''http://example.com'',
                    all_internal_links := {''http://example.com/about''}\<rparr>))))
     = Some [[(''Name'', ''Food Bank''), (''Languages'', ''Spanish'')]]
   \<and> scrape_website broken_about_env ''http://example.com/about'' = Inl (FetchError ''503'')
   \<and> failed_urls (snd (analyze_website broken_about_env ''http://example.com'' None 5 init_state))
     = {''http://example.com/about''}
   \<and> services_list (found_info (snd (analyze_website broken_about_env ''http://example.com'' None 5
         init_state)))
     = Some [[(''Name'', ''Food Bank''), (''Languages'', ''Spanish'')]]
   \<and> \<not> contains ''Spanish''
         (analysis (fst (analyze_website broken_about_env ''http://example.com'' None 5 init_state)))"
  unfolding broken_about_env_def by code_simp

section \<open>Custom mode\<close>

text \<open>
  Whatever the answer, once it contains the marker the custom branch raises, and the
  Custom section is as it was, or empty if it was absent.
\<close>

lemma merge_custom_raises:
  "contains ''EXTRACTED_INFO:'' response \<Longrightarrow>
   \<exists>e st'. merge_custom E response st = (Some e, st')
     \<and> (custom (found_info st') = custom (found_info st) \<or> custom (found_info st') = Some [])"
  by (auto simp: merge_custom_def parse_custom_info_def Let_def split: sum.splits option.splits)

text \<open>
  Claim C1 at a failing input. In custom mode the answer
  \<open>EXTRACTED_INFO: / Phone: 555 / NEXT_URL: none\<close> merges nothing: the call of
  \<open>_parse_custom_info\<close> raises AttributeError, the Custom section is created empty (or
  left as it was: a stored \<open>Phone\<close> keeps its value), and the crawl marks the page as
  failed and reports no extracted information.
\<close>

theorem custom_parser_undefined:
  "analyze_content custom_env home_page (Some ''phone'') init_state
     = (Inl AttributeError, init_state\<lparr>found_info := empty_info\<lparr>custom := Some []\<rparr>\<rparr>)
   \<and> analyze_content custom_env home_page (Some ''phone'')
        (init_state\<lparr>found_info := empty_info\<lparr>custom := Some [(''Phone'', ''555-1111 ext 2'')]\<rparr>\<rparr>)
     = (Inl AttributeError,
        init_state\<lparr>found_info := empty_info\<lparr>custom := Some [(''Phone'', ''555-1111 ext 2'')]\<rparr>\<rparr>)
   \<and> analyze_website custom_env ''http://example.com'' (Some ''phone'') 5 init_state
     = (\<lparr>analysis =
           ''Complete Service Provider Profile:\<newline>\<newline>=== MISSING INFORMATION ===\<newline>All mandatory information found\<newline>\<newline>=== SOURCE URLS ===\<newline>http://example.com'',
         metadata = Failed ''http://example.com'' AttributeError\<rparr>,
        \<lparr>visited_urls = {''http://example.com''},
         base_url = Some ''http://example.com'',
         found_info = empty_info\<lparr>custom := Some []\<rparr>,
         missing_info = {},
         failed_urls = {''http://example.com''},
         all_internal_links = {''http://example.com/about''}\<rparr>)"
  unfolding custom_env_def by code_simp

section \<open>Service entries without a name\<close>

text \<open>
  Claim C5 as stated fails on "entries with no exactly-matching Name are appended". Two
  pages each give a service whose Name is a sentinel, so neither parsed entry has a Name
  field. The second is not appended: it is merged into the first, whose phone number it
  overwrites, because \<open>.get('Name')\<close> is \<open>None\<close> for both.
\<close>

theorem unnamed_entries_merged_counterexample:
  "update_found_info ''Service/Program Level:\<newline>- Name: (missing)\<newline>- Phone Numbers: 111''
     empty_info
     = Inr (empty_info\<lparr>services_list := Some [[(''Phone Numbers'', ''111'')]]\<rparr>)
   \<and> update_found_info ''Service/Program Level:\<newline>- Name: not available\<newline>- Phone Numbers: 222''
       (empty_info\<lparr>services_list := Some [[(''Phone Numbers'', ''111'')]]\<rparr>)
     = Inr (empty_info\<lparr>services_list := Some [[(''Phone Numbers'', ''222'')]]\<rparr>)
   \<and> map_of [(''Phone Numbers'', ''222'')] ''Name'' = None
   \<and> merge_service [(''Phone Numbers'', ''222'')] [[(''Phone Numbers'', ''111'')]]
     = [[(''Phone Numbers'', ''222'')]]"
  by code_simp

section \<open>Source URLs\<close>

lemma final_report_ends_with_sources:
  "\<exists>pre. format_final_results E st
           = join ''\<newline>'' (pre @ [''=== SOURCE URLS ==='', join '', '' (set_iter E (visited_urls st))])"
proof
  show "format_final_results E st
          = join ''\<newline>''
              (([''Complete Service Provider Profile:\<newline>'']
                @ section_lines ''Agency Level'' (agency_level (found_info st))
                @ section_lines ''Site Level'' (site_level (found_info st))
                @ services_lines (services_list (found_info st))
                @ missing_lines E st)
               @ [''=== SOURCE URLS ==='', join '', '' (set_iter E (visited_urls st))])"
    by (simp add: format_final_results_def format_final_lines_def source_lines_def)
qed

lemma custom_report_ends_with_sources:
  "\<exists>pre. format_custom_results E query st
           = join ''\<newline>'' (pre @ [''=== SOURCE URLS ==='', join '', '' (set_iter E (visited_urls st))])"
proof
  show "format_custom_results E query st
          = join ''\<newline>''
              (([''Query Results for: '' @ query @ ''\<newline>'']
                @ (case custom (found_info st) of
                     None \<Rightarrow> []
                   | Some d \<Rightarrow> [''=== EXTRACTED INFORMATION ===\<newline>''] @ map field_text d @ [[]]))
               @ [''=== SOURCE URLS ==='', join '', '' (set_iter E (visited_urls st))])"
    by (simp add: format_custom_results_def format_custom_lines_def source_lines_def)
qed

lemma count_list_distinct:
  "distinct xs \<Longrightarrow> count_list xs u = (if u \<in> set xs then 1 else 0)"
  by (induction xs) auto

lemma analyze_website_report:
  "analysis (fst (analyze_website E url q depth st))
     = format_final_results E (snd (analyze_website E url q depth st))
   \<or> analysis (fst (analyze_website E url q depth st))
     = format_custom_results E (the q) (snd (analyze_website E url q depth st))"
  by (subst (1 2 3 4) analyze_website.simps)
     (simp add: failed_result_def Let_def split: sum.splits prod.splits)

text \<open>
  Claim C8, as amended. The report of every crawl ends with the Source URLs header and
  one line: the elements of the final visited set, joined by a comma and a space, in the
  order in which the set iterates. Whenever that order enumerates the set (every element
  once), each visited URL is listed exactly once.
\<close>

theorem source_urls_in_set_order:
  "(\<exists>pre. analysis (fst (analyze_website E url q depth st))
            = join ''\<newline>''
                (pre @ [''=== SOURCE URLS ==='',
                        join '', '' (set_iter E (visited_urls (snd (analyze_website E url q depth st))))]))
   \<and> (set (set_iter E V) = V \<and> distinct (set_iter E V) \<longrightarrow>
        count_list (set_iter E V) u = (if u \<in> V then 1 else 0))"
proof (intro conjI impI)
  show "\<exists>pre. analysis (fst (analyze_website E url q depth st))
            = join ''\<newline>''
                (pre @ [''=== SOURCE URLS ==='',
                        join '', '' (set_iter E (visited_urls (snd (analyze_website E url q depth st))))])"
    using analyze_website_report [of E url q depth st]
      final_report_ends_with_sources [of E "snd (analyze_website E url q depth st)"]
      custom_report_ends_with_sources [of E "the q" "snd (analyze_website E url q depth st)"]
    by auto
next
  assume "set (set_iter E V) = V \<and> distinct (set_iter E V)"
  then show "count_list (set_iter E V) u = (if u \<in> V then 1 else 0)"
    using count_list_distinct [of "set_iter E V" u] by simp
qed

theorem source_urls_in_set_order_witness:
  "set (set_iter about_first_env {''http://example.com/about'', ''http://example.com''})
     = {''http://example.com/about'', ''http://example.com''}
   \<and> distinct (set_iter about_first_env {''http://example.com/about'', ''http://example.com''})
   \<and> count_list (set_iter about_first_env {''http://example.com/about'', ''http://example.com''})
        ''http://example.com'' = 1
   \<and> set_iter about_first_env {''http://example.com/about'', ''http://example.com''}
       = [''http://example.com'', ''http://example.com/about'']"
proof -
  let ?V = "{''http://example.com/about'', ''http://example.com''}"
  have e: "set_iter about_first_env ?V = [''http://example.com'', ''http://example.com/about'']"
    unfolding about_first_env_def by code_simp
  have w: "set (set_iter about_first_env ?V) = ?V \<and> distinct (set_iter about_first_env ?V)"
    unfolding e by auto
  from source_urls_in_set_order [of about_first_env "''http://example.com''" None 0 init_state ?V
      "''http://example.com''"] w
  have "count_list (set_iter about_first_env ?V) ''http://example.com'' = 1"
    by simp
  with w e show ?thesis by simp
qed

text \<open>
  Claim C8 as stated fails on "traversal order": the visited URLs are kept in a set. A
  crawl that starts at the about page (the only page visited with depth 1) and goes on to
  the home page lists the home page first when the set iterates in sorted order.
\<close>

theorem traversal_order_counterexample:
  "visited_urls (snd (analyze_website about_first_env ''http://example.com/about'' None 1 init_state))
     = {''http://example.com/about''}
   \<and> visited_urls (snd (analyze_website about_first_env ''http://example.com/about'' None 5 init_state))
     = {''http://example.com/about'', ''http://example.com''}
   \<and> analysis (fst (analyze_website about_first_env ''http://example.com/about'' None 5 init_state))
     = ''Complete Service Provider Profile:\<newline>\<newline>=== MISSING INFORMATION ===\<newline>All mandatory information found\<newline>\<newline>=== SOURCE URLS ===\<newline>http://example.com, http://example.com/about''"
  unfolding about_first_env_def by code_simp

end
